theory Spec2Isabelle
  imports Main "HOL-Library.List_Lexorder" "HOL-Library.Product_Lexorder"
begin

section \<open>Python strings\<close>

text \<open>
  A Python \<open>str\<close> is a sequence of Unicode code points, and \<open>len\<close>, slicing, comparison
  and the regular expressions of the program all work on code points. A string is
  therefore a list of code points (natural numbers); \<open>str\<close> embeds an ASCII literal.
  Lists of code points are compared lexicographically, as Python compares strings.
\<close>

type_synonym pystr = "nat list"

definition str :: "string \<Rightarrow> pystr" where
  "str s = map of_char s"

text \<open>
  \<open>str.isspace\<close> on one character, which is also the class \<open>\\s\<close> of a Unicode
  pattern and what \<open>str.strip()\<close> and \<open>str.split()\<close> treat as whitespace.
\<close>

definition isspace :: "nat \<Rightarrow> bool" where
  "isspace c =
     ((9 \<le> c \<and> c \<le> 13) \<or> (28 \<le> c \<and> c \<le> 32) \<or> c = 133 \<or> c = 160 \<or> c = 5760 \<or>
      (8192 \<le> c \<and> c \<le> 8202) \<or> c = 8232 \<or> c = 8233 \<or> c = 8239 \<or> c = 8287 \<or>
      c = 12288)"

definition strip :: "pystr \<Rightarrow> pystr" where
  "strip s = rev (dropWhile isspace (rev (dropWhile isspace s)))"

text \<open>
  \<open>s.split(sep, maxsplit)\<close> for a separator: the occurrences of \<open>sep\<close> are found from
  the left, without overlap; \<open>maxsplit = -1\<close> means no limit. The second argument
  of the model is the part read since the last separator. (Python raises on an empty
  separator; every separator of the program is a non-empty literal.)
\<close>

fun split_sep :: "pystr \<Rightarrow> int \<Rightarrow> pystr \<Rightarrow> pystr \<Rightarrow> pystr list" where
  "split_sep sep n cur [] = [cur]"
| "split_sep sep n cur (x # xs) =
     (if n = 0 then [cur @ x # xs]
      else if sep \<noteq> [] \<and> take (length sep) (x # xs) = sep
        then cur # split_sep sep (n - 1) [] (drop (length sep) (x # xs))
      else split_sep sep n (cur @ [x]) xs)"

definition split :: "pystr \<Rightarrow> pystr \<Rightarrow> pystr list" where
  "split s sep = split_sep sep (- 1) [] s"

definition split_max :: "pystr \<Rightarrow> pystr \<Rightarrow> int \<Rightarrow> pystr list" where
  "split_max s sep maxsplit = split_sep sep maxsplit [] s"

text \<open>\<open>s.split()\<close> without a separator: the maximal runs of non-whitespace.\<close>

fun split_ws_from :: "pystr \<Rightarrow> pystr \<Rightarrow> pystr list" where
  "split_ws_from cur [] = (if cur = [] then [] else [cur])"
| "split_ws_from cur (x # xs) =
     (if isspace x then (if cur = [] then split_ws_from [] xs else cur # split_ws_from [] xs)
      else split_ws_from (cur @ [x]) xs)"

definition split_ws :: "pystr \<Rightarrow> pystr list" where
  "split_ws s = split_ws_from [] s"

text \<open>\<open>pattern in s\<close> for strings.\<close>

fun contains :: "pystr \<Rightarrow> pystr \<Rightarrow> bool" where
  "contains [] p = (p = [])"
| "contains (x # xs) p = (take (length p) (x # xs) = p \<or> contains xs p)"

text \<open>\<open>s.replace(old, new)\<close> for a one-character \<open>old\<close>.\<close>

definition replace_char :: "pystr \<Rightarrow> nat \<Rightarrow> pystr \<Rightarrow> pystr" where
  "replace_char s old new = concat (map (\<lambda>c. if c = old then new else [c]) s)"

subsection \<open>The standard library\<close>

text \<open>
  The program calls functions of Python's standard library whose behaviour rests on the
  Unicode character database, on the platform or on the Python version. They are a
  parameter of the model, a record of functions; the ASCII behaviour that the program's
  own literals and the usual output of git need is written out below and does not
  depend on the parameter.
\<close>

record pydate =
  d_year :: nat
  d_month :: nat
  d_day :: nat

record datetime =
  dt_year :: nat
  dt_month :: nat
  dt_day :: nat
  dt_hour :: nat
  dt_minute :: nat
  dt_second :: nat
  dt_microsecond :: nat
  dt_utcoffset :: "int option"

record pylib =
  uni_lower :: "pystr \<Rightarrow> pystr"
  uni_isalnum :: "nat \<Rightarrow> bool"
  uni_int :: "pystr \<Rightarrow> int option"
  path_suffix :: "pystr \<Rightarrow> pystr"
  fromisoformat :: "pystr \<Rightarrow> datetime option"
  uni_strptime :: "pystr \<Rightarrow> pydate option"
  path_name :: "pystr \<Rightarrow> pystr"
  c_year :: "nat \<Rightarrow> pystr"

definition is_ascii :: "pystr \<Rightarrow> bool" where
  "is_ascii s = list_all (\<lambda>c. c < 128) s"

definition ascii_lower :: "nat \<Rightarrow> nat" where
  "ascii_lower c = (if 65 \<le> c \<and> c \<le> 90 then c + 32 else c)"

text \<open>\<open>s.lower()\<close>: on an ASCII string the letters A to Z are mapped to a to z.\<close>

definition lower :: "pylib \<Rightarrow> pystr \<Rightarrow> pystr" where
  "lower lib s = (if is_ascii s then map ascii_lower s else uni_lower lib s)"

definition is_digit :: "nat \<Rightarrow> bool" where
  "is_digit c = (48 \<le> c \<and> c \<le> 57)"

text \<open>The class \<open>\\w\<close> of a Unicode pattern: alphanumeric or the underscore.\<close>

definition is_word :: "pylib \<Rightarrow> nat \<Rightarrow> bool" where
  "is_word lib c =
     (if c < 128 then (is_digit c \<or> (65 \<le> c \<and> c \<le> 90) \<or> (97 \<le> c \<and> c \<le> 122) \<or> c = 95)
      else uni_isalnum lib c)"

section \<open>Text tokenizer\<close>

definition stop_words :: "pystr list" where
  "stop_words = map str
     [''the'', ''a'', ''an'', ''is'', ''are'', ''was'', ''were'', ''be'', ''been'',
      ''and'', ''or'', ''but'', ''in'', ''on'', ''at'', ''to'', ''for'', ''of'', ''with'',
      ''this'', ''that'', ''it'', ''from'', ''by'', ''as'', ''if'', ''not'', ''no'',
      ''fix'', ''add'', ''update'', ''remove'', ''change'', ''merge'', ''commit'',
      ''wip'', ''todo'', ''fixme'', ''xxx'', ''test'', ''tests'', ''file'', ''files'']"

text \<open>
  \<open>re.sub(r'[^\\w\\s\\u4e00-\\u9fff]', ' ', text.lower())\<close>: every character that is
  neither a word character, nor whitespace, nor in the range U+4E00 to U+9FFF becomes a
  space.
\<close>

definition sub_special :: "pylib \<Rightarrow> pystr \<Rightarrow> pystr" where
  "sub_special lib s =
     map (\<lambda>c. if is_word lib c \<or> isspace c \<or> (19968 \<le> c \<and> c \<le> 40959) then c else 32) s"

definition extract_words :: "pylib \<Rightarrow> pystr \<Rightarrow> pystr list" where
  "extract_words lib text =
     (let text' = sub_special lib (lower lib text);
          words = split_ws text'
      in filter (\<lambda>w. length w > 2 \<and> w \<notin> set stop_words) words)"


section \<open>History extractor\<close>

subsection \<open>Records\<close>

record FileDiff =
  filename :: pystr
  language :: "pystr option"
  added_lines :: int
  deleted_lines :: int
  empty_lines_added :: int

record CommitInfo =
  hash :: pystr
  email :: pystr
  date :: datetime
  message :: pystr
  repo_name :: pystr
  files :: "FileDiff list"

subsection \<open>Language classifier\<close>

definition LANGUAGE_MAP :: "(pystr \<times> pystr) list" where
  "LANGUAGE_MAP = map (\<lambda>(e, l). (str e, str l))
     [(''.py'', ''Python''), (''.js'', ''JavaScript''), (''.ts'', ''TypeScript''),
      (''.jsx'', ''JavaScript''), (''.tsx'', ''TypeScript''), (''.java'', ''Java''),
      (''.kt'', ''Kotlin''), (''.swift'', ''Swift''), (''.go'', ''Go''), (''.rs'', ''Rust''),
      (''.c'', ''C''), (''.cpp'', ''C++''), (''.cc'', ''C++''), (''.h'', ''C/C++ Header''),
      (''.hpp'', ''C++ Header''), (''.cs'', ''C#''), (''.rb'', ''Ruby''), (''.php'', ''PHP''),
      (''.vue'', ''Vue''), (''.svelte'', ''Svelte''), (''.html'', ''HTML''), (''.css'', ''CSS''),
      (''.scss'', ''SCSS''), (''.sass'', ''Sass''), (''.less'', ''Less''), (''.json'', ''JSON''),
      (''.yaml'', ''YAML''), (''.yml'', ''YAML''), (''.xml'', ''XML''), (''.sql'', ''SQL''),
      (''.sh'', ''Shell''), (''.bash'', ''Bash''), (''.zsh'', ''Zsh''), (''.ps1'', ''PowerShell''),
      (''.md'', ''Markdown''), (''.rst'', ''reStructuredText''), (''.lua'', ''Lua''),
      (''.r'', ''R''), (''.m'', ''Objective-C/MATLAB''), (''.dart'', ''Dart''),
      (''.scala'', ''Scala''), (''.groovy'', ''Groovy''), (''.pl'', ''Perl''),
      (''.ex'', ''Elixir''), (''.exs'', ''Elixir''), (''.erl'', ''Erlang''),
      (''.hs'', ''Haskell''), (''.ml'', ''OCaml''), (''.fs'', ''F#''), (''.clj'', ''Clojure''),
      (''.nim'', ''Nim''), (''.zig'', ''Zig''), (''.v'', ''V''), (''.sol'', ''Solidity'')]"

definition get_language :: "pylib \<Rightarrow> pystr \<Rightarrow> pystr option" where
  "get_language lib fname =
     (let ext = lower lib (path_suffix lib fname) in map_of LANGUAGE_MAP ext)"

subsection \<open>Numbers and text\<close>

text \<open>The exceptions of Python that the modelled code can raise.\<close>

datatype pyerror = TypeError | ValueError | OverflowError

text \<open>
  \<open>str(n)\<close> for an integer, as an f-string prints it with \<open>{n}\<close>, and the format
  \<open>{n:,}\<close>, which prints the digits in groups of three separated by commas. Python 3.11
  refuses to convert an integer of more than 4300 decimal digits to text (the default
  limit of \<open>sys.set_int_max_str_digits\<close>; the sign does not count) and raises
  \<open>ValueError\<close>, for both formats.
\<close>

fun digits_of :: "nat \<Rightarrow> pystr" where
  "digits_of n = (if n < 10 then [48 + n] else digits_of (n div 10) @ [48 + n mod 10])"

declare digits_of.simps [simp del]

definition max_str_digits :: nat where
  "max_str_digits = 4300"

definition str_of_int :: "int \<Rightarrow> pyerror + pystr" where
  "str_of_int i =
     (let ds = digits_of (nat \<bar>i\<bar>) in
      if length ds > max_str_digits then Inl ValueError
      else Inr (if i < 0 then 45 # ds else ds))"

fun commas_rev :: "pystr \<Rightarrow> pystr" where
  "commas_rev (a # b # c # d # ds) = a # b # c # 44 # commas_rev (d # ds)"
| "commas_rev ds = ds"

definition fmt_comma :: "int \<Rightarrow> pyerror + pystr" where
  "fmt_comma i =
     (let ds = digits_of (nat \<bar>i\<bar>) in
      if length ds > max_str_digits then Inl ValueError
      else Inr (if i < 0 then 45 # rev (commas_rev (rev ds)) else rev (commas_rev (rev ds))))"

text \<open>
  \<open>int(s)\<close>: a non-empty string of at most 4300 ASCII digits is read in base ten (4300 is
  the default digit limit of Python 3.11); any other string is left to the library,
  where \<open>None\<close> stands for \<open>ValueError\<close>.
\<close>

definition decimal_value :: "pystr \<Rightarrow> int" where
  "decimal_value s = foldl (\<lambda>a c. 10 * a + int (c - 48)) 0 s"

definition py_int :: "pylib \<Rightarrow> pystr \<Rightarrow> int option" where
  "py_int lib s =
     (if s \<noteq> [] \<and> list_all is_digit s \<and> length s \<le> 4300 then Some (decimal_value s)
      else uni_int lib s)"

subsection \<open>The git command\<close>

text \<open>
  \<open>run_git_command(repo_path, args)\<close> runs the external tool and returns whether it
  succeeded and its standard output; a timeout and a missing executable are returned as
  a failure. The model takes the function as a parameter: the answer of git to each
  command, for the state of the repositories at the time of the run.
\<close>

type_synonym git = "pystr \<Rightarrow> pystr list \<Rightarrow> bool \<times> pystr"

subsection \<open>parse_git_log\<close>

text \<open>
  The loop over the records of the log, with its two variables \<open>seen_hashes\<close> and
  \<open>commits\<close>. A record is split at most three times, so \<open>parts\<close> never has more than
  four elements and the unpacking of the source cannot fail.
\<close>

fun parse_records ::
  "pylib \<Rightarrow> pystr set \<Rightarrow> pystr list \<Rightarrow> pystr set \<Rightarrow> CommitInfo list \<Rightarrow> CommitInfo list" where
  "parse_records lib emails [] seen_hashes commits = commits"
| "parse_records lib emails (rec # records) seen_hashes commits =
     (let record = strip rec in
      if record = [] then parse_records lib emails records seen_hashes commits
      else
        let parts = split_max record [0] 3 in
        if length parts < 4 then parse_records lib emails records seen_hashes commits
        else
          let commit_hash = lower lib (parts ! 0);
              email' = lower lib (parts ! 1);
              date_str = parts ! 2;
              message' = strip (parts ! 3)
          in
          if emails \<noteq> {} \<and> email' \<notin> emails
            then parse_records lib emails records seen_hashes commits
          else if commit_hash \<in> seen_hashes
            then parse_records lib emails records seen_hashes commits
          else
            (case fromisoformat lib (replace_char date_str 90 (str ''+00:00'')) of
               None \<Rightarrow> parse_records lib emails records (insert commit_hash seen_hashes) commits
             | Some date' \<Rightarrow>
                 parse_records lib emails records (insert commit_hash seen_hashes)
                   (commits @ [\<lparr>hash = commit_hash, email = email', date = date',
                                message = message', repo_name = [], files = []\<rparr>])))"

text \<open>
  The two f-strings that print the year come first: with a year of more than 4300 digits
  the function raises \<open>ValueError\<close> before it calls git.
\<close>

definition parse_git_log ::
  "pylib \<Rightarrow> git \<Rightarrow> pystr \<Rightarrow> int \<Rightarrow> pystr set \<Rightarrow> pyerror + CommitInfo list" where
  "parse_git_log lib run_git_command repo_path year emails =
     (case str_of_int year of
        Inl e \<Rightarrow> Inl e
      | Inr y1 \<Rightarrow>
          (case str_of_int year of
             Inl e \<Rightarrow> Inl e
           | Inr y2 \<Rightarrow>
               let start_date = y1 @ str ''-01-01'';
                   end_date = y2 @ str ''-12-31'';
                   (success, output) = run_git_command repo_path
                     [str ''log'', str ''--all'', str ''--after='' @ start_date,
                      str ''--before='' @ end_date @ str '' 23:59:59'',
                      str ''--format=%H%x00%ae%x00%aI%x00%B%x00%x00'']
               in if \<not> success \<or> strip output = [] then Inr []
                  else Inr (parse_records lib emails (split output [0, 0]) {} [])))"

subsection \<open>parse_git_diff\<close>

fun parse_numstat :: "pylib \<Rightarrow> pystr list \<Rightarrow> FileDiff list \<Rightarrow> FileDiff list" where
  "parse_numstat lib [] fs = fs"
| "parse_numstat lib (line # lines) fs =
     (if line = [] then parse_numstat lib lines fs
      else
        let parts = split line [9] in
        if length parts < 3 then parse_numstat lib lines fs
        else
          let added = parts ! 0; deleted = parts ! 1; fname = parts ! 2 in
          (case (if added \<noteq> str ''-'' then py_int lib added else Some 0) of
             None \<Rightarrow> parse_numstat lib lines fs
           | Some added_lines' \<Rightarrow>
               (case (if deleted \<noteq> str ''-'' then py_int lib deleted else Some 0) of
                  None \<Rightarrow> parse_numstat lib lines fs
                | Some deleted_lines' \<Rightarrow>
                    parse_numstat lib lines
                      (fs @ [\<lparr>filename = fname, language = get_language lib fname,
                              added_lines = added_lines', deleted_lines = deleted_lines',
                              empty_lines_added = 0\<rparr>]))))"

definition parse_git_diff :: "pylib \<Rightarrow> git \<Rightarrow> pystr \<Rightarrow> pystr \<Rightarrow> FileDiff list" where
  "parse_git_diff lib run_git_command repo_path commit_hash =
     (let (success, output) =
            run_git_command repo_path [str ''diff'', commit_hash @ str ''^!'', str ''--numstat''];
          (success, output) =
            (if \<not> success
             then run_git_command repo_path
                    [str ''diff'', str ''--numstat'',
                     str ''4b825dc642cb6eb9a060e54bf8d69288fbee4904'', commit_hash]
             else (success, output))
      in if \<not> success \<or> strip output = [] then []
         else parse_numstat lib (split (strip output) [10]) [])"

subsection \<open>analyze_repos\<close>




section \<open>Calendar\<close>

text \<open>
  The proleptic Gregorian calendar of Python's \<open>datetime\<close> module: \<open>toordinal\<close> numbers the
  days from 0001-01-01 (day 1), \<open>weekday\<close> is 0 on Monday, \<open>tm_yday\<close> is 1 on 1 January.
\<close>

definition is_leap :: "nat \<Rightarrow> bool" where
  "is_leap y = (y mod 4 = 0 \<and> (y mod 100 \<noteq> 0 \<or> y mod 400 = 0))"

definition days_in_month :: "nat \<Rightarrow> nat \<Rightarrow> nat" where
  "days_in_month y m =
     (if m = 2 then (if is_leap y then 29 else 28)
      else if m = 4 \<or> m = 6 \<or> m = 9 \<or> m = 11 then 30 else 31)"

definition days_before_year :: "nat \<Rightarrow> nat" where
  "days_before_year y = (y - 1) * 365 + (y - 1) div 4 - (y - 1) div 100 + (y - 1) div 400"

definition days_before_month :: "nat \<Rightarrow> nat \<Rightarrow> nat" where
  "days_before_month y m = sum_list (map (days_in_month y) [1..<m])"

definition toordinal :: "pydate \<Rightarrow> nat" where
  "toordinal d = days_before_year (d_year d) + days_before_month (d_year d) (d_month d) + d_day d"

definition date_of :: "datetime \<Rightarrow> pydate" where
  "date_of dt = \<lparr>d_year = dt_year dt, d_month = dt_month dt, d_day = dt_day dt\<rparr>"

definition weekday :: "datetime \<Rightarrow> nat" where
  "weekday dt = (toordinal (date_of dt) + 6) mod 7"

definition tm_yday :: "datetime \<Rightarrow> nat" where
  "tm_yday dt = days_before_month (dt_year dt) (dt_month dt) + dt_day dt"

text \<open>
  \<open>check_date - timedelta(days=1)\<close>; the day before 0001-01-01 is out of range
  (\<open>OverflowError\<close>, here \<open>None\<close>).
\<close>

definition prev_day :: "pydate \<Rightarrow> pydate option" where
  "prev_day d =
     (if 1 < d_day d then Some (d\<lparr>d_day := d_day d - 1\<rparr>)
      else if 1 < d_month d
        then Some (d\<lparr>d_month := d_month d - 1,
                     d_day := days_in_month (d_year d) (d_month d - 1)\<rparr>)
      else if 1 < d_year d then Some \<lparr>d_year = d_year d - 1, d_month = 12, d_day = 31\<rparr>
      else None)"

text \<open>
  \<open>strftime\<close> with the formats \<open>%Y-%m-%d\<close> and \<open>%Y-%m-%d %H:%M\<close>. Month, day, hour and
  minute are padded to two digits. A year from 1000 is printed as it is; how a year below
  1000 is printed depends on the platform's C library and is left to the parameter.
\<close>

definition pad2 :: "nat \<Rightarrow> pystr" where
  "pad2 n = (if n < 10 then 48 # digits_of n else digits_of n)"

definition fmt_year :: "pylib \<Rightarrow> nat \<Rightarrow> pystr" where
  "fmt_year lib y = (if 1000 \<le> y then digits_of y else c_year lib y)"

definition strftime_date :: "pylib \<Rightarrow> pydate \<Rightarrow> pystr" where
  "strftime_date lib d =
     fmt_year lib (d_year d) @ str ''-'' @ pad2 (d_month d) @ str ''-'' @ pad2 (d_day d)"

definition strftime_ymd :: "pylib \<Rightarrow> datetime \<Rightarrow> pystr" where
  "strftime_ymd lib dt = strftime_date lib (date_of dt)"

definition strftime_ymd_hm :: "pylib \<Rightarrow> datetime \<Rightarrow> pystr" where
  "strftime_ymd_hm lib dt =
     strftime_ymd lib dt @ str '' '' @ pad2 (dt_hour dt) @ str '':'' @ pad2 (dt_minute dt)"

text \<open>
  \<open>datetime.strptime(s, "%Y-%m-%d").date()\<close>: a string of the form \<open>dddd-dd-dd\<close> (ASCII
  digits) that names a date of the calendar is that date; every other string is left to
  the library, where \<open>None\<close> stands for \<open>ValueError\<close>.
\<close>

definition valid_date :: "pydate \<Rightarrow> bool" where
  "valid_date d =
     (1 \<le> d_year d \<and> d_year d \<le> 9999 \<and> 1 \<le> d_month d \<and> d_month d \<le> 12 \<and>
      1 \<le> d_day d \<and> d_day d \<le> days_in_month (d_year d) (d_month d))"

definition strptime_ymd :: "pylib \<Rightarrow> pystr \<Rightarrow> pydate option" where
  "strptime_ymd lib s =
     (let d = \<lparr>d_year = nat (decimal_value (take 4 s)),
               d_month = nat (decimal_value (take 2 (drop 5 s))),
               d_day = nat (decimal_value (drop 8 s))\<rparr>
      in if length s = 10 \<and> list_all is_digit (take 4 s) \<and> s ! 4 = 45 \<and>
            list_all is_digit (take 2 (drop 5 s)) \<and> s ! 7 = 45 \<and>
            list_all is_digit (drop 8 s) \<and> valid_date d
         then Some d else uni_strptime lib s)"

text \<open>
  The order of \<open>datetime\<close> values. Two aware values are compared as instants, two naive
  values field by field; comparing a naive with an aware value raises \<open>TypeError\<close>.
  \<open>list.sort()\<close> is stable, and it raises as soon as it compares such a pair, which it
  must do when the list holds both kinds.
\<close>

definition local_micros :: "datetime \<Rightarrow> int" where
  "local_micros dt =
     (((int (toordinal (date_of dt)) * 24 + int (dt_hour dt)) * 60 + int (dt_minute dt)) * 60
        + int (dt_second dt)) * 1000000 + int (dt_microsecond dt)"

definition instant :: "datetime \<Rightarrow> int" where
  "instant dt = local_micros dt - (case dt_utcoffset dt of None \<Rightarrow> 0 | Some off \<Rightarrow> off)"

definition is_aware :: "datetime \<Rightarrow> bool" where
  "is_aware dt = (dt_utcoffset dt \<noteq> None)"

definition sort_datetimes :: "datetime list \<Rightarrow> pyerror + datetime list" where
  "sort_datetimes dts =
     (if list_all is_aware dts \<or> list_all (\<lambda>dt. \<not> is_aware dt) dts
      then Inr (sort_key instant dts)
      else Inl TypeError)"

section \<open>Dictionaries and counters\<close>

text \<open>
  A Python \<open>dict\<close> keeps its keys in the order of their first insertion, and the program
  depends on that order (\<open>max\<close> over the items, \<open>Counter.most_common\<close>, the order of the
  repository summaries). A dictionary is a list of pairs with distinct keys, in insertion
  order.
\<close>

type_synonym ('k, 'v) dict = "('k \<times> 'v) list"

definition dict_get :: "('k, 'v) dict \<Rightarrow> 'k \<Rightarrow> 'v \<Rightarrow> 'v" where
  "dict_get d k dflt = (case map_of d k of None \<Rightarrow> dflt | Some v \<Rightarrow> v)"

fun dict_set :: "('k, 'v) dict \<Rightarrow> 'k \<Rightarrow> 'v \<Rightarrow> ('k, 'v) dict" where
  "dict_set [] k v = [(k, v)]"
| "dict_set ((k', v') # d) k v = (if k' = k then (k', v) # d else (k', v') # dict_set d k v)"

text \<open>\<open>d[k] = d.get(k, 0) + n\<close>, which is also \<open>d[k] += n\<close> on a counter or a defaultdict.\<close>

definition dict_add :: "('k, int) dict \<Rightarrow> 'k \<Rightarrow> int \<Rightarrow> ('k, int) dict" where
  "dict_add d k n = dict_set d k (dict_get d k 0 + n)"

text \<open>\<open>Counter.update(words)\<close>: one is added for each element, in order.\<close>

fun counter_update :: "('k, int) dict \<Rightarrow> 'k list \<Rightarrow> ('k, int) dict" where
  "counter_update c [] = c"
| "counter_update c (w # ws) = counter_update (dict_add c w 1) ws"

text \<open>
  \<open>Counter.most_common(n)\<close> is \<open>sorted(items, key=count, reverse=True)[:n]\<close>: the sort is
  stable, so items of equal count stay in insertion order.
\<close>

definition most_common :: "nat \<Rightarrow> ('k, int) dict \<Rightarrow> ('k, int) dict" where
  "most_common n c = take n (sort_key (\<lambda>(k, v). - v) c)"

text \<open>
  \<open>max(items, key=f)\<close> on a non-empty sequence: the first item of the greatest key (a later
  item replaces the best one only when its key is strictly greater).
\<close>

fun max_by :: "('a \<Rightarrow> int) \<Rightarrow> 'a \<Rightarrow> 'a list \<Rightarrow> 'a" where
  "max_by f best [] = best"
| "max_by f best (x # xs) = (if f x > f best then max_by f x xs else max_by f best xs)"

text \<open>\<open>s.add(x)\<close> on a set kept as a list without duplicates.\<close>

definition set_add :: "'a list \<Rightarrow> 'a \<Rightarrow> 'a list" where
  "set_add s x = (if x \<in> set s then s else s @ [x])"

section \<open>Floating point\<close>

text \<open>
  The one floating-point expression of the program is \<open>deleted > added * 0.8\<close> on integers.
  Python converts \<open>added\<close> to a double (rounding to 53 bits, half to even;
  \<open>OverflowError\<close> from \<open>2 ^ 1024\<close>), multiplies by the double nearest to 0.8, which is
  \<open>3602879701896397 / 2 ^ 52\<close>, rounding again, and compares the integer \<open>deleted\<close> with the
  product exactly. A double is the pair of a mantissa and a binary exponent.
\<close>

fun bitlen :: "nat \<Rightarrow> nat" where
  "bitlen n = (if n = 0 then 0 else Suc (bitlen (n div 2)))"

declare bitlen.simps [simp del]

definition round53 :: "nat \<Rightarrow> int \<Rightarrow> nat \<times> int" where
  "round53 m e =
     (if m < 2 ^ 53 then (m, e)
      else
        let s = bitlen m - 53;
            q = m div 2 ^ s;
            r = m mod 2 ^ s;
            h = 2 ^ (s - 1)
        in (if r > h \<or> (r = h \<and> odd q) then q + 1 else q, e + int s))"

definition times_08 :: "int \<Rightarrow> pyerror + int \<times> int" where
  "times_08 x =
     (let (m, e) = round53 (nat \<bar>x\<bar>) 0 in
      if m * 2 ^ nat e \<ge> 2 ^ 1024 then Inl OverflowError
      else let (m', e') = round53 (m * 3602879701896397) (e - 52)
           in Inr (sgn x * int m', e'))"

definition int_gt_float :: "int \<Rightarrow> int \<times> int \<Rightarrow> bool" where
  "int_gt_float d f =
     (case f of (m, e) \<Rightarrow> if 0 \<le> e then d > m * 2 ^ nat e else d * 2 ^ nat (- e) > m)"

section \<open>Aggregation engine\<close>

subsection \<open>Records\<close>

record RepoSummary =
  rs_name :: pystr
  rs_commits :: int
  rs_added_lines :: int
  rs_deleted_lines :: int
  rs_languages :: "(pystr, int) dict"
  rs_keywords :: "pystr list"
  rs_main_work :: "pystr list"
  rs_first_commit :: "pystr option"
  rs_last_commit :: "pystr option"
  rs_commit_messages :: "(pystr \<times> pystr) list"

record YearStats =
  year :: int
  total_commits :: int
  total_added_lines :: int
  total_deleted_lines :: int
  active_days :: int
  heatmap :: "(nat, int) dict"
  languages :: "(pystr, int) dict"
  commits_by_hour :: "(nat, int) dict"
  commits_by_weekday :: "(nat, int) dict"
  weekend_days :: int
  most_active_date :: "pystr option"
  most_active_date_commits :: int
  most_active_month :: "nat option"
  most_active_month_commits :: int
  max_streak :: int
  current_streak :: int
  commit_words :: "(pystr, int) dict"
  repos_count :: int
  repos_stats :: "(pystr, int) dict"
  repo_summaries :: "RepoSummary list"
  achievements :: "(pystr \<times> pystr) list"

definition new_RepoSummary :: "pystr \<Rightarrow> RepoSummary" where
  "new_RepoSummary n =
     \<lparr>rs_name = n, rs_commits = 0, rs_added_lines = 0, rs_deleted_lines = 0, rs_languages = [],
      rs_keywords = [], rs_main_work = [], rs_first_commit = None, rs_last_commit = None,
      rs_commit_messages = []\<rparr>"

definition new_YearStats :: "int \<Rightarrow> YearStats" where
  "new_YearStats yr =
     \<lparr>year = yr, total_commits = 0, total_added_lines = 0, total_deleted_lines = 0,
      active_days = 0, heatmap = [], languages = [], commits_by_hour = [],
      commits_by_weekday = [], weekend_days = 0, most_active_date = None,
      most_active_date_commits = 0, most_active_month = None, most_active_month_commits = 0,
      max_streak = 0, current_streak = 0, commit_words = [], repos_count = 0, repos_stats = [],
      repo_summaries = [], achievements = []\<rparr>"

definition DEFAULT_EXCLUDE_LANGUAGES :: "pystr set" where
  "DEFAULT_EXCLUDE_LANGUAGES =
     {str ''Markdown'', str ''JSON'', str ''YAML'', str ''XML'', str ''reStructuredText''}"

subsection \<open>calculate_streak\<close>

text \<open>
  The set \<open>active_dates\<close> is a list without duplicates. The source iterates over it once, to
  parse its elements, and sorts the result, so the order of the iteration does not show.
  \<open>parse_dates\<close> is the list comprehension: it raises \<open>ValueError\<close> (\<open>None\<close>) when an
  element does not parse.
\<close>

fun parse_dates :: "pylib \<Rightarrow> pystr list \<Rightarrow> pydate list option" where
  "parse_dates lib [] = Some []"
| "parse_dates lib (s # ss) =
     (case strptime_ymd lib s of
        None \<Rightarrow> None
      | Some d \<Rightarrow> (case parse_dates lib ss of None \<Rightarrow> None | Some ds \<Rightarrow> Some (d # ds)))"

definition date_key :: "pydate \<Rightarrow> nat \<times> nat \<times> nat" where
  "date_key d = (d_year d, d_month d, d_day d)"

text \<open>The loop over \<open>range(1, len(dates))\<close>, with \<open>current\<close> and \<open>max_streak\<close>.\<close>

fun streak_scan :: "pydate list \<Rightarrow> int \<Rightarrow> int \<Rightarrow> int" where
  "streak_scan (a # b # ds) current mx =
     (if int (toordinal b) - int (toordinal a) = 1
      then streak_scan (b # ds) (current + 1) (max mx (current + 1))
      else streak_scan (b # ds) 1 mx)"
| "streak_scan ds current mx = mx"

text \<open>
  The loop that counts the current streak back from today. It ends at the first day that
  is not active, or with \<open>OverflowError\<close> below the first day of the calendar.
\<close>

function walk_back :: "pylib \<Rightarrow> pystr list \<Rightarrow> pydate \<Rightarrow> int \<Rightarrow> pyerror + int" where
  "walk_back lib active_dates check_date streak =
     (if strftime_date lib check_date \<in> set active_dates
      then (case prev_day check_date of
              None \<Rightarrow> Inl OverflowError
            | Some d \<Rightarrow> walk_back lib active_dates d (streak + 1))
      else Inr streak)"
  by pat_completeness auto
termination
  by (relation "measure (\<lambda>(lib, a, d, s). d_year d * 1000 + d_month d * 50 + d_day d)")
     (auto simp: prev_day_def days_in_month_def split: if_splits)

declare walk_back.simps [simp del]

text \<open>
  \<open>today\<close> is what \<open>date.today()\<close> returns when the function runs: the local date of the
  system clock. The argument \<open>year\<close> of the source is not used.
\<close>

definition calculate_streak ::
  "pylib \<Rightarrow> pydate \<Rightarrow> pystr list \<Rightarrow> int \<Rightarrow> pyerror + int \<times> int" where
  "calculate_streak lib today active_dates yr =
     (if active_dates = [] then Inr (0, 0)
      else
        (case parse_dates lib active_dates of
           None \<Rightarrow> Inl ValueError
         | Some ds \<Rightarrow>
             let dates = sort_key date_key ds;
                 mx = streak_scan dates 1 1
             in (case walk_back lib active_dates today 0 of
                   Inl e \<Rightarrow> Inl e
                 | Inr current \<Rightarrow> Inr (mx, current))))"

subsection \<open>analyze_main_work\<close>

definition work_patterns :: "(pystr \<times> pystr) list" where
  "work_patterns =
     [(str ''feat'', [0x65B0, 0x529F, 0x80FD, 0x5F00, 0x53D1]),
      (str ''feature'', [0x65B0, 0x529F, 0x80FD, 0x5F00, 0x53D1]),
      ([0x65B0, 0x589E], [0x65B0, 0x529F, 0x80FD, 0x5F00, 0x53D1]),
      ([0x6DFB, 0x52A0], [0x65B0, 0x529F, 0x80FD, 0x5F00, 0x53D1]),
      (str ''fix'', str ''Bug '' @ [0x4FEE, 0x590D]),
      (str ''bugfix'', str ''Bug '' @ [0x4FEE, 0x590D]),
      ([0x4FEE, 0x590D], str ''Bug '' @ [0x4FEE, 0x590D]),
      (str ''refactor'', [0x4EE3, 0x7801, 0x91CD, 0x6784]),
      ([0x91CD, 0x6784], [0x4EE3, 0x7801, 0x91CD, 0x6784]),
      ([0x4F18, 0x5316], [0x6027, 0x80FD, 0x4F18, 0x5316]),
      (str ''perf'', [0x6027, 0x80FD, 0x4F18, 0x5316]),
      (str ''docs'', [0x6587, 0x6863, 0x7F16, 0x5199]),
      ([0x6587, 0x6863], [0x6587, 0x6863, 0x7F16, 0x5199]),
      (str ''test'', [0x6D4B, 0x8BD5, 0x76F8, 0x5173]),
      ([0x6D4B, 0x8BD5], [0x6D4B, 0x8BD5, 0x76F8, 0x5173]),
      (str ''style'', [0x4EE3, 0x7801, 0x98CE, 0x683C]),
      (str ''chore'', [0x5DE5, 0x7A0B, 0x914D, 0x7F6E]),
      (str ''ci'', str ''CI/CD '' @ [0x914D, 0x7F6E]),
      (str ''build'', [0x6784, 0x5EFA, 0x76F8, 0x5173]),
      (str ''deploy'', [0x90E8, 0x7F72, 0x76F8, 0x5173]),
      ([0x90E8, 0x7F72], [0x90E8, 0x7F72, 0x76F8, 0x5173]),
      (str ''api'', str ''API '' @ [0x5F00, 0x53D1]),
      ([0x63A5, 0x53E3], str ''API '' @ [0x5F00, 0x53D1]),
      (str ''ui'', str ''UI '' @ [0x5F00, 0x53D1]),
      ([0x754C, 0x9762], str ''UI '' @ [0x5F00, 0x53D1]),
      (str ''database'', [0x6570, 0x636E, 0x5E93, 0x76F8, 0x5173]),
      ([0x6570, 0x636E, 0x5E93], [0x6570, 0x636E, 0x5E93, 0x76F8, 0x5173]),
      (str ''security'', [0x5B89, 0x5168, 0x76F8, 0x5173]),
      ([0x5B89, 0x5168], [0x5B89, 0x5168, 0x76F8, 0x5173]),
      (str ''auth'', [0x8BA4, 0x8BC1, 0x6388, 0x6743]),
      ([0x767B, 0x5F55], [0x8BA4, 0x8BC1, 0x6388, 0x6743])]"

fun count_patterns ::
  "pystr \<Rightarrow> (pystr \<times> pystr) list \<Rightarrow> (pystr, int) dict \<Rightarrow> (pystr, int) dict" where
  "count_patterns msg_lower [] work_counter = work_counter"
| "count_patterns msg_lower ((pattern, work_type) # ps) work_counter =
     count_patterns msg_lower ps
       (if contains msg_lower pattern then dict_add work_counter work_type 1 else work_counter)"

fun count_work :: "pylib \<Rightarrow> CommitInfo list \<Rightarrow> (pystr, int) dict \<Rightarrow> (pystr, int) dict" where
  "count_work lib [] work_counter = work_counter"
| "count_work lib (commit # commits) work_counter =
     count_work lib commits
       (count_patterns (lower lib (message commit)) work_patterns work_counter)"

definition analyze_main_work :: "pylib \<Rightarrow> CommitInfo list \<Rightarrow> pystr list" where
  "analyze_main_work lib commits = map fst (most_common 5 (count_work lib commits []))"

subsection \<open>generate_repo_summaries\<close>

fun group_by_repo ::
  "CommitInfo list \<Rightarrow> (pystr, CommitInfo list) dict \<Rightarrow> (pystr, CommitInfo list) dict" where
  "group_by_repo [] repo_commits = repo_commits"
| "group_by_repo (commit # commits) repo_commits =
     group_by_repo commits
       (if repo_name commit \<noteq> []
        then dict_set repo_commits (repo_name commit)
               (dict_get repo_commits (repo_name commit) [] @ [commit])
        else repo_commits)"

text \<open>
  The variables of the loop over the commits of one repository: the summary, the two
  counters and the list of the commit dates.
\<close>

record summary_vars =
  sv_summary :: RepoSummary
  sv_lang_counter :: "(pystr, int) dict"
  sv_word_counter :: "(pystr, int) dict"
  sv_commit_dates :: "datetime list"

fun summarize_files :: "pystr set \<Rightarrow> FileDiff list \<Rightarrow> summary_vars \<Rightarrow> summary_vars" where
  "summarize_files exclude_languages [] v = v"
| "summarize_files exclude_languages (f # fs) v =
     (let summary = (sv_summary v)
            \<lparr>rs_added_lines := rs_added_lines (sv_summary v) + added_lines f,
             rs_deleted_lines := rs_deleted_lines (sv_summary v) + deleted_lines f\<rparr>;
          lang_counter =
            (case language f of
               None \<Rightarrow> sv_lang_counter v
             | Some l \<Rightarrow>
                 if l \<noteq> [] \<and> l \<notin> exclude_languages
                 then dict_add (sv_lang_counter v) l (added_lines f)
                 else sv_lang_counter v)
      in summarize_files exclude_languages fs
           (v\<lparr>sv_summary := summary, sv_lang_counter := lang_counter\<rparr>))"

fun summarize_commits ::
  "pylib \<Rightarrow> pystr set \<Rightarrow> CommitInfo list \<Rightarrow> summary_vars \<Rightarrow> summary_vars" where
  "summarize_commits lib exclude_languages [] v = v"
| "summarize_commits lib exclude_languages (commit # commits) v =
     (let date_str = strftime_ymd_hm lib (date commit);
          summary = (sv_summary v)
            \<lparr>rs_commit_messages := rs_commit_messages (sv_summary v) @ [(date_str, message commit)]\<rparr>;
          words = extract_words lib (message commit);
          v1 = v\<lparr>sv_commit_dates := sv_commit_dates v @ [date commit],
                 sv_summary := summary,
                 sv_word_counter := counter_update (sv_word_counter v) words\<rparr>
      in summarize_commits lib exclude_languages commits
           (summarize_files exclude_languages (files commit) v1))"

definition summarize_repo ::
  "pylib \<Rightarrow> pystr set \<Rightarrow> pystr \<Rightarrow> CommitInfo list \<Rightarrow> pyerror + RepoSummary" where
  "summarize_repo lib exclude_languages name repo_commit_list =
     (let summary0 = (new_RepoSummary name)\<lparr>rs_commits := int (length repo_commit_list)\<rparr>;
          v = summarize_commits lib exclude_languages repo_commit_list
                \<lparr>sv_summary = summary0, sv_lang_counter = [], sv_word_counter = [],
                 sv_commit_dates = []\<rparr>;
          summary1 = (sv_summary v)
            \<lparr>rs_languages := most_common 5 (sv_lang_counter v),
             rs_keywords := map fst (most_common 10 (sv_word_counter v)),
             rs_main_work := analyze_main_work lib repo_commit_list\<rparr>
      in (case (if sv_commit_dates v \<noteq> []
                then (case sort_datetimes (sv_commit_dates v) of
                        Inl e \<Rightarrow> Inl e
                      | Inr commit_dates \<Rightarrow>
                          Inr (summary1
                                \<lparr>rs_first_commit := Some (strftime_ymd lib (hd commit_dates)),
                                 rs_last_commit := Some (strftime_ymd lib (last commit_dates))\<rparr>))
                else Inr summary1) of
            Inl e \<Rightarrow> Inl e
          | Inr summary2 \<Rightarrow>
              Inr (summary2\<lparr>rs_commit_messages := sort_key fst (rs_commit_messages summary2)\<rparr>)))"

fun summarize_repos ::
  "pylib \<Rightarrow> pystr set \<Rightarrow> (pystr, CommitInfo list) dict \<Rightarrow> RepoSummary list \<Rightarrow>
   pyerror + RepoSummary list" where
  "summarize_repos lib exclude_languages [] summaries = Inr summaries"
| "summarize_repos lib exclude_languages ((name, repo_commit_list) # items) summaries =
     (case summarize_repo lib exclude_languages name repo_commit_list of
        Inl e \<Rightarrow> Inl e
      | Inr summary \<Rightarrow> summarize_repos lib exclude_languages items (summaries @ [summary]))"

definition generate_repo_summaries ::
  "pylib \<Rightarrow> CommitInfo list \<Rightarrow> pystr set \<Rightarrow> pyerror + RepoSummary list" where
  "generate_repo_summaries lib commits exclude_languages =
     (let repo_commits = group_by_repo commits [] in
      case summarize_repos lib exclude_languages repo_commits [] of
        Inl e \<Rightarrow> Inl e
      | Inr summaries \<Rightarrow> Inr (sort_key (\<lambda>x. - rs_commits x) summaries))"

subsection \<open>calculate_achievements\<close>

text \<open>
  The rules in the order of the source; each appends at most one pair of a name and a
  description to the list. A rule that prints a number in its description raises
  \<open>ValueError\<close> when the number has more than 4300 digits, and the last rule, the
  floating-point comparison, raises \<open>OverflowError\<close> when the added lines do not fit a
  double; the first exception ends the function. The names and descriptions are Chinese
  text; they are written here by their code points (\<open>0x5377\<close> is U+5377), with the ASCII
  parts and the formatted numbers in between.
\<close>

definition volume_badge :: "int \<Rightarrow> pystr \<times> pystr" where
  "volume_badge score =
     (if score > 100000 then (([0x5377, 0x738B, 0x672C, 0x738B]), ([0x4EE3, 0x7801, 0x91CF, 0x60CA, 0x4EBA, 0xFF0C, 0x662F, 0x56E2, 0x961F, 0x7684, 0x6838, 0x5FC3, 0x529B, 0x91CF]))
      else if score > 10000 then (([0x53D1, 0x594B, 0x56FE, 0x5F3A]), ([0x6301, 0x7EED, 0x9AD8, 0x4EA7, 0x51FA, 0xFF0C, 0x4EE4, 0x4EBA, 0x656C, 0x4F69]))
      else if score > 1000 then (([0x52E4, 0x52B3, 0x52AA, 0x529B]), ([0x7A33, 0x5B9A, 0x8F93, 0x51FA, 0xFF0C, 0x503C, 0x5F97, 0x8868, 0x626C]))
      else if score > 500 then (([0x5C0F, 0x8BD5, 0x725B, 0x5200]), ([0x521D, 0x9732, 0x950B, 0x8292, 0xFF0C, 0x7EE7, 0x7EED, 0x52A0, 0x6CB9]))
      else (([0x4F11, 0x517B, 0x751F, 0x606F]), ([0x8FD9, 0x4E00, 0x5E74, 0x6BD4, 0x8F83, 0x8F7B, 0x677E, 0x5462])))"

definition language_badge :: "int \<Rightarrow> pyerror + (pystr \<times> pystr) list" where
  "language_badge n =
     (if n \<ge> 10 then (case str_of_int n of Inl e \<Rightarrow> Inl e | Inr s \<Rightarrow> Inr [(([0x5168, 0x6808, 0x5927, 0x795E]), ([0x7CBE, 0x901A] @ str '' '' @ s @ str '' '' @ [0x79CD, 0x7F16, 0x7A0B, 0x8BED, 0x8A00]))])
      else if n \<ge> 6 then (case str_of_int n of Inl e \<Rightarrow> Inl e | Inr s \<Rightarrow> Inr [(([0x7F16, 0x7A0B, 0x8BED, 0x8A00, 0x5927, 0x5E08]), ([0x4F7F, 0x7528, 0x4E86] @ str '' '' @ s @ str '' '' @ [0x79CD, 0x7F16, 0x7A0B, 0x8BED, 0x8A00]))])
      else Inr [])"

definition hour_badge :: "nat \<Rightarrow> pystr \<times> pystr" where
  "hour_badge favorite_hour =
     (if 0 \<le> favorite_hour \<and> favorite_hour < 5
        then (([0x591C, 0x732B, 0x5B50]), ([0x51CC, 0x6668, 0x8FD8, 0x5728, 0x5199, 0x4EE3, 0x7801, 0xFF0C, 0x6CE8, 0x610F, 0x4F11, 0x606F]))
      else if 5 \<le> favorite_hour \<and> favorite_hour < 10
        then (([0x65E9, 0x7761, 0x65E9, 0x8D77, 0x8EAB, 0x4F53, 0x597D]), ([0x65E9, 0x8D77, 0x7684, 0x9E1F, 0x513F, 0x6709, 0x866B, 0x5403]))
      else if 10 \<le> favorite_hour \<and> favorite_hour < 14
        then (([0x5E72, 0x996D, 0x4EBA, 0x5E72, 0x996D, 0x9B42]), ([0x5348, 0x95F4, 0x65F6, 0x5149, 0x4E5F, 0x4E0D, 0x5FD8] @ str ''coding''))
      else if 14 \<le> favorite_hour \<and> favorite_hour < 17
        then (([0x4E0B, 0x5348, 0x8336, 0x65F6, 0x95F4]), ([0x4E0B, 0x5348, 0x662F, 0x4F60, 0x7684, 0x9AD8, 0x6548, 0x65F6, 0x6BB5]))
      else if 17 \<le> favorite_hour \<and> favorite_hour < 19
        then (([0x665A, 0x9910, 0x524D, 0x51B2, 0x523A]), ([0x6293, 0x4F4F, 0x665A, 0x9910, 0x524D, 0x7684, 0x9EC4, 0x91D1, 0x65F6, 0x95F4]))
      else (([0x591C, 0x95F4, 0x6A21, 0x5F0F]), ([0x591C, 0x665A, 0x662F, 0x4F60, 0x7684, 0x521B, 0x4F5C, 0x65F6, 0x95F4])))"

definition weekend_badge :: "int \<Rightarrow> pyerror + (pystr \<times> pystr) list" where
  "weekend_badge n =
     (if n > 40 then (case str_of_int n of Inl e \<Rightarrow> Inl e | Inr s \<Rightarrow> Inr [(([0x5468, 0x672B, 0x6C38, 0x52A8, 0x673A]), ([0x5468, 0x672B, 0x63D0, 0x4EA4, 0x4E86] @ str '' '' @ s @ str '' '' @ [0x5929, 0xFF0C, 0x8001, 0x677F, 0x770B, 0x4E86, 0x90FD, 0x6D41, 0x6CEA]))])
      else if n > 20 then (case str_of_int n of Inl e \<Rightarrow> Inl e | Inr s \<Rightarrow> Inr [(([0x5468, 0x672B, 0x6218, 0x58EB]), ([0x5468, 0x672B, 0x4E5F, 0x63D0, 0x4EA4, 0x4E86] @ str '' '' @ s @ str '' '' @ [0x5929]))])
      else Inr [])"

definition peak_badge :: "int \<Rightarrow> pyerror + (pystr \<times> pystr) list" where
  "peak_badge n =
     (if n > 100 then (case str_of_int n of Inl e \<Rightarrow> Inl e | Inr s \<Rightarrow> Inr [(([0x4EE3, 0x7801, 0x72C2, 0x4EBA]), ([0x5355, 0x65E5, 0x6700, 0x9AD8] @ str '' '' @ s @ str '' '' @ [0x6B21, 0x63D0, 0x4EA4]))])
      else if n > 50 then (case str_of_int n of Inl e \<Rightarrow> Inl e | Inr s \<Rightarrow> Inr [((str ''Bugfix '' @ [0x5236, 0x9020, 0x673A]), ([0x5355, 0x65E5] @ str '' '' @ s @ str '' '' @ [0x6B21, 0x63D0, 0x4EA4]))])
      else Inr [])"

definition streak_badge :: "int \<Rightarrow> pyerror + (pystr \<times> pystr) list" where
  "streak_badge n =
     (if n \<ge> 30 then (case str_of_int n of Inl e \<Rightarrow> Inl e | Inr s \<Rightarrow> Inr [(([0x575A, 0x6301, 0x5C31, 0x662F, 0x80DC, 0x5229]), ([0x8FDE, 0x7EED] @ str '' '' @ s @ str '' '' @ [0x5929, 0x63D0, 0x4EA4, 0xFF0C, 0x6BC5, 0x529B, 0x60CA, 0x4EBA]))])
      else if n \<ge> 14 then (case str_of_int n of Inl e \<Rightarrow> Inl e | Inr s \<Rightarrow> Inr [(([0x4E24, 0x5468, 0x8FDE, 0x51FB]), ([0x8FDE, 0x7EED] @ str '' '' @ s @ str '' '' @ [0x5929, 0x63D0, 0x4EA4]))])
      else if n \<ge> 7 then (case str_of_int n of Inl e \<Rightarrow> Inl e | Inr s \<Rightarrow> Inr [(([0x4E00, 0x5468, 0x8FBE, 0x4EBA]), ([0x8FDE, 0x7EED] @ str '' '' @ s @ str '' '' @ [0x5929, 0x63D0, 0x4EA4]))])
      else Inr [])"

definition active_badge :: "int \<Rightarrow> pyerror + (pystr \<times> pystr) list" where
  "active_badge n =
     (if n \<ge> 300 then (case str_of_int n of Inl e \<Rightarrow> Inl e | Inr s \<Rightarrow> Inr [(([0x5168, 0x5E74, 0x65E0, 0x4F11]), ([0x6D3B, 0x8DC3] @ str '' '' @ s @ str '' '' @ [0x5929, 0xFF0C, 0x4EE3, 0x7801, 0x5C31, 0x662F, 0x751F, 0x6D3B]))])
      else if n \<ge> 200 then (case str_of_int n of Inl e \<Rightarrow> Inl e | Inr s \<Rightarrow> Inr [(([0x52B3, 0x6A21, 0x672C, 0x6A21]), ([0x6D3B, 0x8DC3] @ str '' '' @ s @ str '' '' @ [0x5929]))])
      else Inr [])"

definition net_badge :: "int \<Rightarrow> pyerror + (pystr \<times> pystr) list" where
  "net_badge net_lines =
     (if net_lines > 1000000
        then (case fmt_comma net_lines of Inl e \<Rightarrow> Inl e | Inr s \<Rightarrow> Inr [(([0x767E, 0x4E07, 0x4EE3, 0x7801]), ([0x51C0, 0x589E] @ str '' '' @ s @ str '' '' @ [0x884C, 0x4EE3, 0x7801]))])
      else if net_lines > 100000
        then (case fmt_comma net_lines of Inl e \<Rightarrow> Inl e | Inr s \<Rightarrow> Inr [(([0x5341, 0x4E07, 0x884C, 0x5BB6]), ([0x51C0, 0x589E] @ str '' '' @ s @ str '' '' @ [0x884C, 0x4EE3, 0x7801]))])
      else if net_lines < - 10000
        then (case fmt_comma (- net_lines) of Inl e \<Rightarrow> Inl e | Inr s \<Rightarrow> Inr [(([0x4EE3, 0x7801, 0x6E05, 0x9053, 0x592B]), ([0x51C0, 0x5220, 0x9664] @ str '' '' @ s @ str '' '' @ [0x884C, 0x4EE3, 0x7801, 0xFF0C, 0x7CBE, 0x7B80, 0x4E13, 0x5BB6]))])
      else Inr [])"

definition refactor_badge :: "pystr \<times> pystr" where
  "refactor_badge = (([0x91CD, 0x6784, 0x8FBE, 0x4EBA]), ([0x5220, 0x9664, 0x7684, 0x4EE3, 0x7801, 0x91CF, 0x63A5, 0x8FD1, 0x65B0, 0x589E, 0x91CF, 0xFF0C, 0x91CD, 0x6784, 0x9AD8, 0x624B]))"

definition calculate_achievements :: "YearStats \<Rightarrow> pyerror + (pystr \<times> pystr) list" where
  "calculate_achievements stats =
     (let score = total_commits stats * 10 + total_added_lines stats;
          a1 = [volume_badge score]
      in
      case language_badge (int (length (languages stats))) of
        Inl e \<Rightarrow> Inl e
      | Inr b2 \<Rightarrow>
      let a2 = a1 @ b2;
          a3 = (case commits_by_hour stats of
                  [] \<Rightarrow> a2
                | x # xs \<Rightarrow> a2 @ [hour_badge (fst (max_by snd x xs))])
      in
      case weekend_badge (weekend_days stats) of
        Inl e \<Rightarrow> Inl e
      | Inr b4 \<Rightarrow>
      case peak_badge (most_active_date_commits stats) of
        Inl e \<Rightarrow> Inl e
      | Inr b5 \<Rightarrow>
      case streak_badge (max_streak stats) of
        Inl e \<Rightarrow> Inl e
      | Inr b6 \<Rightarrow>
      case active_badge (active_days stats) of
        Inl e \<Rightarrow> Inl e
      | Inr b7 \<Rightarrow>
      let net_lines = total_added_lines stats - total_deleted_lines stats in
      case net_badge net_lines of
        Inl e \<Rightarrow> Inl e
      | Inr b8 \<Rightarrow>
      let a8 = a3 @ b4 @ b5 @ b6 @ b7 @ b8 in
      case times_08 (total_added_lines stats) of
        Inl e \<Rightarrow> Inl e
      | Inr f \<Rightarrow>
          Inr (if int_gt_float (total_deleted_lines stats) f then a8 @ [refactor_badge]
               else a8))"

subsection \<open>analyze_commits\<close>

text \<open>The variables of the loop over the commits.\<close>

record loop_vars =
  v_stats :: YearStats
  v_commits_by_date :: "(pystr, CommitInfo list) dict"
  v_commits_by_month :: "(nat, int) dict"
  v_active_dates :: "pystr list"
  v_weekend_dates :: "pystr list"
  v_word_counter :: "(pystr, int) dict"

fun count_files :: "pystr set \<Rightarrow> FileDiff list \<Rightarrow> YearStats \<Rightarrow> YearStats" where
  "count_files exclude_languages [] stats = stats"
| "count_files exclude_languages (f # fs) stats =
     (let stats1 = stats
            \<lparr>total_added_lines := total_added_lines stats + added_lines f,
             total_deleted_lines := total_deleted_lines stats + deleted_lines f\<rparr>;
          stats2 =
            (case language f of
               None \<Rightarrow> stats1
             | Some l \<Rightarrow>
                 if l \<noteq> [] \<and> l \<notin> exclude_languages
                 then stats1\<lparr>languages := dict_set (languages stats1) l
                                (dict_get (languages stats1) l 0 + added_lines f)\<rparr>
                 else stats1)
      in count_files exclude_languages fs stats2)"

definition count_commit :: "pylib \<Rightarrow> pystr set \<Rightarrow> CommitInfo \<Rightarrow> loop_vars \<Rightarrow> loop_vars" where
  "count_commit lib exclude_languages commit v =
     (let stats1 = (v_stats v)\<lparr>total_commits := total_commits (v_stats v) + 1\<rparr>;
          stats2 = count_files exclude_languages (files commit) stats1;
          date_str = strftime_ymd lib (date commit);
          by_date = dict_set (v_commits_by_date v) date_str
                      (dict_get (v_commits_by_date v) date_str [] @ [commit]);
          active = set_add (v_active_dates v) date_str;
          by_month = dict_add (v_commits_by_month v) (dt_month (date commit)) 1;
          day_of_year = tm_yday (date commit);
          stats3 = stats2\<lparr>heatmap := dict_set (heatmap stats2) day_of_year
                            (dict_get (heatmap stats2) day_of_year 0 + 1)\<rparr>;
          hour = dt_hour (date commit);
          stats4 = stats3\<lparr>commits_by_hour := dict_set (commits_by_hour stats3) hour
                            (dict_get (commits_by_hour stats3) hour 0 + 1)\<rparr>;
          wd = weekday (date commit);
          stats5 = stats4\<lparr>commits_by_weekday := dict_set (commits_by_weekday stats4) wd
                            (dict_get (commits_by_weekday stats4) wd 0 + 1)\<rparr>;
          weekend = (if wd \<ge> 5 then set_add (v_weekend_dates v) date_str
                     else v_weekend_dates v);
          words = extract_words lib (message commit)
      in \<lparr>v_stats = stats5, v_commits_by_date = by_date, v_commits_by_month = by_month,
          v_active_dates = active, v_weekend_dates = weekend,
          v_word_counter = counter_update (v_word_counter v) words\<rparr>)"

fun count_commits ::
  "pylib \<Rightarrow> pystr set \<Rightarrow> CommitInfo list \<Rightarrow> loop_vars \<Rightarrow> loop_vars" where
  "count_commits lib exclude_languages [] v = v"
| "count_commits lib exclude_languages (commit # commits) v =
     count_commits lib exclude_languages commits (count_commit lib exclude_languages commit v)"

text \<open>
  \<open>analyze_commits(commits, year, exclude_languages)\<close>. The further argument \<open>today\<close> is the
  date that \<open>date.today()\<close> returns during the call; the source does not take it as an
  argument but reads the clock.
\<close>

definition analyze_commits ::
  "pylib \<Rightarrow> pydate \<Rightarrow> CommitInfo list \<Rightarrow> int \<Rightarrow> pystr set option \<Rightarrow> pyerror + YearStats" where
  "analyze_commits lib today commits yr exclude_opt =
     (let exclude_languages =
            (case exclude_opt of None \<Rightarrow> DEFAULT_EXCLUDE_LANGUAGES | Some e \<Rightarrow> e);
          stats0 = new_YearStats yr
      in if commits = [] then Inr stats0
         else
           let v = count_commits lib exclude_languages commits
                     \<lparr>v_stats = stats0, v_commits_by_date = [], v_commits_by_month = [],
                      v_active_dates = [], v_weekend_dates = [], v_word_counter = []\<rparr>;
               stats1 = (v_stats v)
                 \<lparr>active_days := int (length (v_active_dates v)),
                  weekend_days := int (length (v_weekend_dates v))\<rparr>;
               stats2 =
                 (case v_commits_by_date v of
                    [] \<Rightarrow> stats1
                  | x # xs \<Rightarrow>
                      let most_active = max_by (\<lambda>x. int (length (snd x))) x xs
                      in stats1\<lparr>most_active_date := Some (fst most_active),
                                 most_active_date_commits := int (length (snd most_active))\<rparr>);
               stats3 =
                 (case v_commits_by_month v of
                    [] \<Rightarrow> stats2
                  | x # xs \<Rightarrow>
                      let most_active_month' = max_by snd x xs
                      in stats2\<lparr>most_active_month := Some (fst most_active_month'),
                                 most_active_month_commits := snd most_active_month'\<rparr>)
           in (case calculate_streak lib today (v_active_dates v) yr of
                 Inl e \<Rightarrow> Inl e
               | Inr (mx, current) \<Rightarrow>
                   let stats4 = stats3
                         \<lparr>max_streak := mx, current_streak := current,
                          commit_words := most_common 20 (v_word_counter v)\<rparr>
                   in (case generate_repo_summaries lib commits exclude_languages of
                         Inl e \<Rightarrow> Inl e
                       | Inr summaries \<Rightarrow>
                           let stats5 = stats4
                                 \<lparr>repo_summaries := summaries,
                                  repos_count := int (length summaries)\<rparr>
                           in (case calculate_achievements stats5 of
                                 Inl e \<Rightarrow> Inl e
                               | Inr a \<Rightarrow> Inr (stats5\<lparr>achievements := a\<rparr>)))))"


section \<open>A library instance for evaluation\<close>

text \<open>
  To evaluate the model on concrete inputs the library parameter needs a value.
  \<open>ascii_lib\<close> agrees with Python on the inputs of the examples below: ASCII text, paths of
  the form \<open>/dir/name\<close>, and timestamps of the form \<open>YYYY-MM-DDTHH:MM:SS+HH:MM\<close>, which is
  what git prints for \<open>%aI\<close>. Outside of these it is arbitrary, and no general theorem
  depends on it.
\<close>

definition last_component :: "pystr \<Rightarrow> pystr" where
  "last_component p = rev (takeWhile (\<lambda>c. c \<noteq> 47) (rev p))"

definition posix_suffix :: "pystr \<Rightarrow> pystr" where
  "posix_suffix p =
     (let name = last_component p;
          tail = rev (takeWhile (\<lambda>c. c \<noteq> 46) (rev name))
      in if 46 \<in> set name \<and> tail \<noteq> [] \<and> length tail + 1 < length name then 46 # tail else [])"

definition iso_strict :: "pystr \<Rightarrow> datetime option" where
  "iso_strict s =
     (let num = (\<lambda>i n. nat (decimal_value (take n (drop i s))));
          digits = (\<lambda>i n. list_all is_digit (take n (drop i s)))
      in if length s = 25 \<and> digits 0 4 \<and> s ! 4 = 45 \<and> digits 5 2 \<and> s ! 7 = 45 \<and> digits 8 2 \<and>
            s ! 10 = 84 \<and> digits 11 2 \<and> s ! 13 = 58 \<and> digits 14 2 \<and> s ! 16 = 58 \<and>
            digits 17 2 \<and> (s ! 19 = 43 \<or> s ! 19 = 45) \<and> digits 20 2 \<and> s ! 22 = 58 \<and>
            digits 23 2
         then Some \<lparr>dt_year = num 0 4, dt_month = num 5 2, dt_day = num 8 2,
                    dt_hour = num 11 2, dt_minute = num 14 2, dt_second = num 17 2,
                    dt_microsecond = 0,
                    dt_utcoffset =
                      Some ((if s ! 19 = 45 then - 1 else 1) *
                            (int (num 20 2) * 3600 + int (num 23 2) * 60) * 1000000)\<rparr>
         else None)"

definition ascii_lib :: pylib where
  "ascii_lib =
     \<lparr>uni_lower = (\<lambda>s. s), uni_isalnum = (\<lambda>c. False), uni_int = (\<lambda>s. None),
      path_suffix = posix_suffix, fromisoformat = iso_strict, uni_strptime = (\<lambda>s. None),
      path_name = last_component, c_year = digits_of\<rparr>"

text \<open>A commit on a given day at noon UTC, for the examples.\<close>

definition noon :: "nat \<Rightarrow> nat \<Rightarrow> nat \<Rightarrow> datetime" where
  "noon y m d =
     \<lparr>dt_year = y, dt_month = m, dt_day = d, dt_hour = 12, dt_minute = 0, dt_second = 0,
      dt_microsecond = 0, dt_utcoffset = Some 0\<rparr>"

definition mk_commit :: "string \<Rightarrow> datetime \<Rightarrow> string \<Rightarrow> string \<Rightarrow> FileDiff list \<Rightarrow> CommitInfo" where
  "mk_commit h dt msg repo fs =
     \<lparr>hash = str h, email = str ''dev@example.org'', date = dt, message = str msg,
      repo_name = str repo, files = fs\<rparr>"

definition mk_file :: "string \<Rightarrow> string \<Rightarrow> int \<Rightarrow> int \<Rightarrow> FileDiff" where
  "mk_file name lang a d =
     \<lparr>filename = str name, language = (if lang = [] then None else Some (str lang)),
      added_lines = a, deleted_lines = d, empty_lines_added = 0\<rparr>"

section \<open>Notions used to state the properties\<close>

text \<open>
  The names of the five tiers of the volume rule, read off \<open>volume_badge\<close>, and the
  snapshot of the mutual-exclusivity example.
\<close>

definition volume_names :: "pystr list" where
  "volume_names = map (\<lambda>score. fst (volume_badge score)) [100001, 10001, 1001, 501, 0]"

definition is_volume_badge :: "pystr \<times> pystr \<Rightarrow> bool" where
  "is_volume_badge b = (fst b \<in> set volume_names)"

definition stats_50_100000 :: YearStats where
  "stats_50_100000 = (new_YearStats 2024)\<lparr>total_commits := 50, total_added_lines := 100000\<rparr>"

text \<open>
  Auxiliary notions for the proofs: the loop over the commits in closed form, and the
  stages of \<open>analyze_commits\<close> after the loop.
\<close>

fun add_languages :: "pystr set \<Rightarrow> FileDiff list \<Rightarrow> (pystr, int) dict \<Rightarrow> (pystr, int) dict" where
  "add_languages ex [] d = d"
| "add_languages ex (f # fs) d =
     add_languages ex fs
       (case language f of
          None \<Rightarrow> d
        | Some l \<Rightarrow> if l \<noteq> [] \<and> l \<notin> ex then dict_set d l (dict_get d l 0 + added_lines f) else d)"

definition loop_model :: "pylib \<Rightarrow> pystr set \<Rightarrow> CommitInfo list \<Rightarrow> loop_vars \<Rightarrow> loop_vars" where
  "loop_model lib ex cs v =
     \<lparr>v_stats = (v_stats v)
        \<lparr>total_commits := total_commits (v_stats v) + int (length cs),
         total_added_lines := total_added_lines (v_stats v) +
           sum_list (map added_lines (concat (map files cs))),
         total_deleted_lines := total_deleted_lines (v_stats v) +
           sum_list (map deleted_lines (concat (map files cs))),
         heatmap := foldl (\<lambda>d c. dict_set d (tm_yday (date c)) (dict_get d (tm_yday (date c)) 0 + 1))
                      (heatmap (v_stats v)) cs,
         languages := add_languages ex (concat (map files cs)) (languages (v_stats v)),
         commits_by_hour :=
           foldl (\<lambda>d c. dict_set d (dt_hour (date c)) (dict_get d (dt_hour (date c)) 0 + 1))
             (commits_by_hour (v_stats v)) cs,
         commits_by_weekday :=
           foldl (\<lambda>d c. dict_set d (weekday (date c)) (dict_get d (weekday (date c)) 0 + 1))
             (commits_by_weekday (v_stats v)) cs\<rparr>,
      v_commits_by_date =
        foldl (\<lambda>d c. dict_set d (strftime_ymd lib (date c))
                        (dict_get d (strftime_ymd lib (date c)) [] @ [c]))
          (v_commits_by_date v) cs,
      v_commits_by_month = foldl (\<lambda>d c. dict_add d (dt_month (date c)) 1) (v_commits_by_month v) cs,
      v_active_dates = foldl (\<lambda>a c. set_add a (strftime_ymd lib (date c))) (v_active_dates v) cs,
      v_weekend_dates =
        foldl (\<lambda>a c. if weekday (date c) \<ge> 5 then set_add a (strftime_ymd lib (date c)) else a)
          (v_weekend_dates v) cs,
      v_word_counter =
        foldl (\<lambda>w c. counter_update w (extract_words lib (message c))) (v_word_counter v) cs\<rparr>"

definition stats_after_loop :: "pylib \<Rightarrow> pystr set \<Rightarrow> CommitInfo list \<Rightarrow> int \<Rightarrow> loop_vars" where
  "stats_after_loop lib ex commits yr =
     count_commits lib ex commits
       \<lparr>v_stats = new_YearStats yr, v_commits_by_date = [], v_commits_by_month = [],
        v_active_dates = [], v_weekend_dates = [], v_word_counter = []\<rparr>"

definition most_active_stats :: "loop_vars \<Rightarrow> YearStats" where
  "most_active_stats v =
     (let stats1 = (v_stats v)
            \<lparr>active_days := int (length (v_active_dates v)),
             weekend_days := int (length (v_weekend_dates v))\<rparr>;
          stats2 =
            (case v_commits_by_date v of
               [] \<Rightarrow> stats1
             | x # xs \<Rightarrow>
                 let most_active = max_by (\<lambda>x. int (length (snd x))) x xs
                 in stats1\<lparr>most_active_date := Some (fst most_active),
                            most_active_date_commits := int (length (snd most_active))\<rparr>)
      in (case v_commits_by_month v of
            [] \<Rightarrow> stats2
          | x # xs \<Rightarrow>
              let most_active_month' = max_by snd x xs
              in stats2\<lparr>most_active_month := Some (fst most_active_month'),
                         most_active_month_commits := snd most_active_month'\<rparr>))"

definition exclude_of :: "pystr set option \<Rightarrow> pystr set" where
  "exclude_of exo = (case exo of None \<Rightarrow> DEFAULT_EXCLUDE_LANGUAGES | Some e \<Rightarrow> e)"

definition filled :: "YearStats \<Rightarrow> int \<Rightarrow> int \<Rightarrow> (pystr, int) dict \<Rightarrow> RepoSummary list \<Rightarrow> YearStats" where
  "filled stats mx current wc summaries =
     stats\<lparr>max_streak := mx, current_streak := current, commit_words := most_common 20 wc,
           repo_summaries := summaries, repos_count := int (length summaries)\<rparr>"


text \<open>
  The example of the end-to-end scenario: two commits in one repository on consecutive
  days, one touching a Python file (+10/-2) and one a Markdown file (+5/-0).
\<close>

definition ymd :: "nat \<Rightarrow> nat \<Rightarrow> nat \<Rightarrow> pydate" where
  "ymd y m d = \<lparr>d_year = y, d_month = m, d_day = d\<rparr>"

definition example_commits :: "CommitInfo list" where
  "example_commits =
     [mk_commit ''aa'' (noon 2024 3 4) ''add parser module'' ''repo''
        [mk_file ''a.py'' ''Python'' 10 2],
      mk_commit ''bb'' (noon 2024 3 5) ''write docs (readme)'' ''repo''
        [mk_file ''r.md'' ''Markdown'' 5 0]]"

fun first_index :: "'a list \<Rightarrow> 'a \<Rightarrow> nat" where
  "first_index [] w = 0"
| "first_index (x # xs) w = (if x = w then 0 else Suc (first_index xs w))"

text \<open>
  The ranking of the keywords as the specification words it: the distinct tokens with their
  frequencies, by descending frequency and, among tokens of equal frequency, by the position
  of the first occurrence in the stream of tokens. \<open>firsts\<close> lists the distinct tokens in
  the order of their first occurrence.
\<close>

definition keyword_ranking :: "pystr list \<Rightarrow> (pystr \<times> int) list" where
  "keyword_ranking toks =
     sort_key (\<lambda>(w, n). (- n, first_index toks w))
       (map (\<lambda>w. (w, int (count_list toks w))) (remdups toks))"

fun firsts :: "'a list \<Rightarrow> 'a list" where
  "firsts [] = []"
| "firsts (x # xs) = x # removeAll x (firsts xs)"


definition alpha_beta_commits :: "CommitInfo list" where
  "alpha_beta_commits =
     [mk_commit ''aa'' (noon 2024 3 4) ''alpha beta'' ''repo'' [],
      mk_commit ''bb'' (noon 2024 3 5) ''beta alpha'' ''repo'' []]"

text \<open>The example with a third commit that has no repository label.\<close>

definition unlabelled_example :: "CommitInfo list" where
  "unlabelled_example =
     example_commits @ [mk_commit ''cc'' (noon 2024 3 5) ''tune settings'' [] []]"

text \<open>A commit with a Python file, and a Markdown file with 40 added lines.\<close>

definition parser_commit :: CommitInfo where
  "parser_commit = mk_commit ''aa'' (noon 2024 3 4) ''add parser module'' ''repo'' []"

definition python_file :: FileDiff where
  "python_file = mk_file ''a.py'' ''Python'' 10 2"

definition markdown_file :: FileDiff where
  "markdown_file = mk_file ''notes.md'' ''Markdown'' 40 0"

text \<open>
  A line of the diff statistics that the parser rejects: fewer than three fields between
  tabs, or a count field that is neither the sentinel \<open>-\<close> nor a number.
\<close>

definition malformed :: "pylib \<Rightarrow> pystr \<Rightarrow> bool" where
  "malformed lib line =
     (let parts = split line [9] in
      length parts < 3 \<or>
      (3 \<le> length parts \<and> parts ! 0 \<noteq> str ''-'' \<and> py_int lib (parts ! 0) = None) \<or>
      (3 \<le> length parts \<and> parts ! 1 \<noteq> str ''-'' \<and> py_int lib (parts ! 1) = None))"

text \<open>
  An answer of git to the diff query: a binary file, a text file, a line without tabs and
  a line whose first count is not a number.
\<close>

definition numstat_lines :: "pystr list" where
  "numstat_lines =
     [str ''-'' @ 9 # str ''-'' @ 9 # str ''logo.png'',
      str ''3'' @ 9 # str ''1'' @ 9 # str ''a.py'',
      str ''garbage'',
      str ''x'' @ 9 # str ''2'' @ 9 # str ''b.py'']"

definition numstat_git :: git where
  "numstat_git repo args = (True, concat (map (\<lambda>l. l @ [10]) numstat_lines))"

text \<open>A string without whitespace at either end.\<close>

definition trimmed :: "pystr \<Rightarrow> bool" where
  "trimmed core = (core = [] \<or> (\<not> isspace (hd core) \<and> \<not> isspace (last core)))"

text \<open>
  The variable \<open>seen_hashes\<close> of the loop of \<open>parse_git_log\<close> after the records of a list:
  the loop adds the hash of every record that has four fields and passes the author filter,
  also when the timestamp of the record does not parse.
\<close>

fun seen_after :: "pylib \<Rightarrow> pystr set \<Rightarrow> pystr list \<Rightarrow> pystr set \<Rightarrow> pystr set" where
  "seen_after lib emails [] seen_hashes = seen_hashes"
| "seen_after lib emails (rec # records) seen_hashes =
     (let record = strip rec in
      if record = [] then seen_after lib emails records seen_hashes
      else
        let parts = split_max record [0] 3 in
        if length parts < 4 then seen_after lib emails records seen_hashes
        else if emails \<noteq> {} \<and> lower lib (parts ! 1) \<notin> emails
          then seen_after lib emails records seen_hashes
        else seen_after lib emails records (insert (lower lib (parts ! 0)) seen_hashes))"

text \<open>
  An answer of git to the log query: one commit whose message starts with two spaces, has a
  blank line inside, and ends, as \<open>%B\<close> prints it, with a newline.
\<close>

definition log_message :: pystr where
  "log_message = str ''  indented subject'' @ 10 # 10 # str ''body'' @ [10]"

definition log_record :: pystr where
  "log_record =
     str ''ABC1'' @ 0 # str ''Dev@Example.org'' @ 0 # str ''2024-03-04T12:00:00+00:00'' @ 0 #
     log_message"

definition log_git :: git where
  "log_git repo args = (True, log_record @ [0, 0, 10])"


definition labelled :: "pylib \<Rightarrow> git \<Rightarrow> pystr \<Rightarrow> CommitInfo \<Rightarrow> CommitInfo" where
  "labelled lib run_git_command repo c =
     c\<lparr>repo_name := path_name lib repo,
       files := parse_git_diff lib run_git_command repo (hash c)\<rparr>"




section \<open>Achievements: the volume rule\<close>

lemma volume_names_eval:
  "volume_names = [[0x5377, 0x738B, 0x672C, 0x738B], [0x53D1, 0x594B, 0x56FE, 0x5F3A],
     [0x52E4, 0x52B3, 0x52AA, 0x529B], [0x5C0F, 0x8BD5, 0x725B, 0x5200],
     [0x4F11, 0x517B, 0x751F, 0x606F]]"
  by (simp add: volume_names_def volume_badge_def)

lemma is_volume_volume_badge: "is_volume_badge (volume_badge score)"
  by (simp add: is_volume_badge_def volume_names_eval volume_badge_def)

lemma str_simps: "str [] = []" "str (c # cs) = of_char c # str cs"
  by (simp_all add: str_def)

lemma no_volume_language: "language_badge n = Inr b \<Longrightarrow> filter is_volume_badge b = []"
  by (auto simp: is_volume_badge_def volume_names_eval language_badge_def str_simps
           split: if_splits sum.splits)

lemma no_volume_hour: "\<not> is_volume_badge (hour_badge h)"
  by (simp add: is_volume_badge_def volume_names_eval hour_badge_def str_simps)

lemma no_volume_weekend: "weekend_badge n = Inr b \<Longrightarrow> filter is_volume_badge b = []"
  by (auto simp: is_volume_badge_def volume_names_eval weekend_badge_def str_simps
           split: if_splits sum.splits)

lemma no_volume_peak: "peak_badge n = Inr b \<Longrightarrow> filter is_volume_badge b = []"
  by (auto simp: is_volume_badge_def volume_names_eval peak_badge_def str_simps
           split: if_splits sum.splits)

lemma no_volume_streak: "streak_badge n = Inr b \<Longrightarrow> filter is_volume_badge b = []"
  by (auto simp: is_volume_badge_def volume_names_eval streak_badge_def str_simps
           split: if_splits sum.splits)

lemma no_volume_active: "active_badge n = Inr b \<Longrightarrow> filter is_volume_badge b = []"
  by (auto simp: is_volume_badge_def volume_names_eval active_badge_def str_simps
           split: if_splits sum.splits)

lemma no_volume_net: "net_badge n = Inr b \<Longrightarrow> filter is_volume_badge b = []"
  by (auto simp: is_volume_badge_def volume_names_eval net_badge_def str_simps
           split: if_splits sum.splits)

lemma no_volume_refactor: "\<not> is_volume_badge refactor_badge"
  by (simp add: is_volume_badge_def volume_names_eval refactor_badge_def str_simps)

text \<open>What a call of \<open>calculate_achievements\<close> that returns has computed.\<close>

lemma calculate_achievements_Inr:
  assumes "calculate_achievements stats = Inr a"
  obtains b2 b4 b5 b6 b7 b8 f where
    "language_badge (int (length (languages stats))) = Inr b2"
    "weekend_badge (weekend_days stats) = Inr b4"
    "peak_badge (most_active_date_commits stats) = Inr b5"
    "streak_badge (max_streak stats) = Inr b6"
    "active_badge (active_days stats) = Inr b7"
    "net_badge (total_added_lines stats - total_deleted_lines stats) = Inr b8"
    "times_08 (total_added_lines stats) = Inr f"
    "a = [volume_badge (total_commits stats * 10 + total_added_lines stats)] @ b2 @
         (case commits_by_hour stats of [] \<Rightarrow> [] | x # xs \<Rightarrow> [hour_badge (fst (max_by snd x xs))]) @
         b4 @ b5 @ b6 @ b7 @ b8 @
         (if int_gt_float (total_deleted_lines stats) f then [refactor_badge] else [])"
  using assms
  by (auto simp: calculate_achievements_def Let_def split: sum.splits list.splits if_splits)

lemma achievements_volume:
  assumes "calculate_achievements stats = Inr a"
  shows "filter is_volume_badge a =
         [volume_badge (total_commits stats * 10 + total_added_lines stats)]"
proof -
  from assms obtain b2 b4 b5 b6 b7 b8 f where
    b: "language_badge (int (length (languages stats))) = Inr b2"
       "weekend_badge (weekend_days stats) = Inr b4"
       "peak_badge (most_active_date_commits stats) = Inr b5"
       "streak_badge (max_streak stats) = Inr b6"
       "active_badge (active_days stats) = Inr b7"
       "net_badge (total_added_lines stats - total_deleted_lines stats) = Inr b8"
    and a: "a = [volume_badge (total_commits stats * 10 + total_added_lines stats)] @ b2 @
         (case commits_by_hour stats of [] \<Rightarrow> [] | x # xs \<Rightarrow> [hour_badge (fst (max_by snd x xs))]) @
         b4 @ b5 @ b6 @ b7 @ b8 @
         (if int_gt_float (total_deleted_lines stats) f then [refactor_badge] else [])"
    by (rule calculate_achievements_Inr)
  show ?thesis
    unfolding a
    by (simp add: is_volume_volume_badge no_volume_hour no_volume_refactor
        no_volume_language [OF b(1)] no_volume_weekend [OF b(2)] no_volume_peak [OF b(3)]
        no_volume_streak [OF b(4)] no_volume_active [OF b(5)] no_volume_net [OF b(6)]
        split: list.splits)
qed

lemma times_08_small: "\<bar>x\<bar> < 2 ^ 53 \<Longrightarrow> \<exists>f. times_08 x = Inr f"
proof -
  assume a: "\<bar>x\<bar> < 2 ^ 53"
  then have n: "nat \<bar>x\<bar> < (2::nat) ^ 53" by (simp add: nat_less_iff)
  then have r: "round53 (nat \<bar>x\<bar>) 0 = (nat \<bar>x\<bar>, 0)" by (simp add: round53_def)
  have "\<not> (nat \<bar>x\<bar> * 2 ^ nat 0 \<ge> (2::nat) ^ 1024)" using n by simp
  then show ?thesis
    by (simp add: times_08_def r split: prod.splits)
qed

text \<open>
  The printing of integers: a number of at most 4300 digits, that is, of absolute value
  below \<open>10 ^ 4300\<close>, is printed, and any other raises \<open>ValueError\<close>.
\<close>

lemma length_digits_of: "0 < k \<Longrightarrow> (length (digits_of n) \<le> k) = (n < 10 ^ k)"
proof (induction n arbitrary: k rule: digits_of.induct)
  case (1 n)
  show ?case
  proof (cases "n < 10")
    case True
    have "(10::nat) ^ 1 \<le> 10 ^ k" using 1(2) by (intro power_increasing) simp_all
    with True have "n < 10 ^ k" by simp
    with True 1(2) show ?thesis by (simp add: digits_of.simps [of n])
  next
    case False
    show ?thesis
    proof (cases k)
      case 0
      with 1(2) show ?thesis by simp
    next
      case (Suc j)
      show ?thesis
      proof (cases "j = 0")
        case True
        have "length (digits_of (n div 10)) \<noteq> 0"
          by (subst digits_of.simps) simp
        with True Suc False show ?thesis by (simp add: digits_of.simps [of n])
      next
        case j: False
        have "(length (digits_of (n div 10)) \<le> j) = (n div 10 < 10 ^ j)"
          using 1(1) [OF False, of j] j by simp
        moreover have "(n div 10 < 10 ^ j) = (n < 10 ^ Suc j)"
          by (simp add: div_less_iff_less_mult mult.commute)
        ultimately show ?thesis using False Suc by (simp add: digits_of.simps [of n])
      qed
    qed
  qed
qed

lemma str_of_int_raises: "(str_of_int i = Inl ValueError) = (10 ^ max_str_digits \<le> \<bar>i\<bar>)"
proof -
  have k: "0 < max_str_digits" by (simp add: max_str_digits_def)
  have "(nat \<bar>i\<bar> < 10 ^ max_str_digits) = (\<bar>i\<bar> < 10 ^ max_str_digits)"
    by (simp add: nat_less_iff)
  then show ?thesis
    using length_digits_of [OF k, of "nat \<bar>i\<bar>"]
    by (auto simp: str_of_int_def Let_def)
qed

lemma fmt_comma_raises: "(fmt_comma i = Inl ValueError) = (10 ^ max_str_digits \<le> \<bar>i\<bar>)"
proof -
  have k: "0 < max_str_digits" by (simp add: max_str_digits_def)
  have "(nat \<bar>i\<bar> < 10 ^ max_str_digits) = (\<bar>i\<bar> < 10 ^ max_str_digits)"
    by (simp add: nat_less_iff)
  then show ?thesis
    using length_digits_of [OF k, of "nat \<bar>i\<bar>"]
    by (auto simp: fmt_comma_def Let_def)
qed

lemma str_of_int_returns: "\<bar>i\<bar> < 10 ^ max_str_digits \<Longrightarrow> \<exists>s. str_of_int i = Inr s"
  using str_of_int_raises [of i] by (auto simp: str_of_int_def Let_def split: if_splits)

lemma fmt_comma_returns: "\<bar>i\<bar> < 10 ^ max_str_digits \<Longrightarrow> \<exists>s. fmt_comma i = Inr s"
  using fmt_comma_raises [of i] by (auto simp: fmt_comma_def Let_def split: if_splits)

lemma below_limit: "i < 10 ^ 15 \<Longrightarrow> (i::int) < 10 ^ max_str_digits"
proof -
  assume a: "i < 10 ^ 15"
  have "(10::int) ^ 15 \<le> 10 ^ max_str_digits"
    by (intro power_increasing) (simp_all add: max_str_digits_def)
  with a show ?thesis by (rule less_le_trans)
qed

lemma badges_return:
  assumes "\<bar>n\<bar> < 10 ^ max_str_digits"
  shows "\<exists>b. language_badge n = Inr b" "\<exists>b. weekend_badge n = Inr b"
    "\<exists>b. peak_badge n = Inr b" "\<exists>b. streak_badge n = Inr b" "\<exists>b. active_badge n = Inr b"
    "\<exists>b. net_badge n = Inr b"
proof -
  obtain s where s: "str_of_int n = Inr s" using str_of_int_returns [OF assms] by blast
  obtain t where t: "fmt_comma n = Inr t" using fmt_comma_returns [OF assms] by blast
  obtain u where u: "fmt_comma (- n) = Inr u" using fmt_comma_returns [of "- n"] assms by auto
  show "\<exists>b. language_badge n = Inr b" by (simp add: language_badge_def s)
  show "\<exists>b. weekend_badge n = Inr b" by (simp add: weekend_badge_def s)
  show "\<exists>b. peak_badge n = Inr b" by (simp add: peak_badge_def s)
  show "\<exists>b. streak_badge n = Inr b" by (simp add: streak_badge_def s)
  show "\<exists>b. active_badge n = Inr b" by (simp add: active_badge_def s)
  show "\<exists>b. net_badge n = Inr b" by (simp add: net_badge_def t u)
qed

lemma calculate_achievements_returns:
  assumes "\<bar>total_added_lines stats\<bar> < 2 ^ 53"
    and "int (length (languages stats)) < 10 ^ max_str_digits"
    and "\<bar>weekend_days stats\<bar> < 10 ^ max_str_digits"
    and "\<bar>most_active_date_commits stats\<bar> < 10 ^ max_str_digits"
    and "\<bar>max_streak stats\<bar> < 10 ^ max_str_digits"
    and "\<bar>active_days stats\<bar> < 10 ^ max_str_digits"
    and "\<bar>total_added_lines stats - total_deleted_lines stats\<bar> < 10 ^ max_str_digits"
  shows "\<exists>a. calculate_achievements stats = Inr a"
proof -
  obtain f where f: "times_08 (total_added_lines stats) = Inr f"
    using times_08_small [OF assms(1)] by auto
  have "\<bar>int (length (languages stats))\<bar> < 10 ^ max_str_digits" using assms(2) by simp
  then obtain b2 where b2: "language_badge (int (length (languages stats))) = Inr b2"
    using badges_return(1) by blast
  obtain b4 where b4: "weekend_badge (weekend_days stats) = Inr b4"
    using badges_return(2) [OF assms(3)] by blast
  obtain b5 where b5: "peak_badge (most_active_date_commits stats) = Inr b5"
    using badges_return(3) [OF assms(4)] by blast
  obtain b6 where b6: "streak_badge (max_streak stats) = Inr b6"
    using badges_return(4) [OF assms(5)] by blast
  obtain b7 where b7: "active_badge (active_days stats) = Inr b7"
    using badges_return(5) [OF assms(6)] by blast
  obtain b8 where b8: "net_badge (total_added_lines stats - total_deleted_lines stats) = Inr b8"
    using badges_return(6) [OF assms(7)] by blast
  show ?thesis by (simp add: calculate_achievements_def Let_def f b2 b4 b5 b6 b7 b8)
qed

lemma print_errors:
  "str_of_int i = Inl e \<Longrightarrow> e = ValueError" "fmt_comma i = Inl e \<Longrightarrow> e = ValueError"
  by (auto simp: str_of_int_def fmt_comma_def Let_def split: if_splits)

lemma badge_errors:
  "language_badge n = Inl e \<Longrightarrow> e = ValueError" "weekend_badge n = Inl e \<Longrightarrow> e = ValueError"
  "peak_badge n = Inl e \<Longrightarrow> e = ValueError" "streak_badge n = Inl e \<Longrightarrow> e = ValueError"
  "active_badge n = Inl e \<Longrightarrow> e = ValueError" "net_badge n = Inl e \<Longrightarrow> e = ValueError"
  by (auto simp: language_badge_def weekend_badge_def peak_badge_def streak_badge_def
        active_badge_def net_badge_def
      dest: print_errors split: if_splits sum.splits)

lemma calculate_achievements_error:
  assumes "calculate_achievements stats = Inl e" and "times_08 (total_added_lines stats) = Inr f"
  shows "e = ValueError"
  using assms
  by (auto simp: calculate_achievements_def Let_def dest: badge_errors split: sum.splits)

text \<open>
  An example of the exception: the snapshot of the claim with \<open>10 ^ 4300 + 100000\<close> deleted
  lines. The rule of the net lines has to print \<open>10 ^ 4300\<close>, a number of 4301 digits.
\<close>

lemma net_badge_raises:
  assumes "10 ^ max_str_digits \<le> - n"
  shows "net_badge n = Inl ValueError"
proof -
  have "(10000::int) < 10 ^ max_str_digits" by (rule below_limit) simp
  with assms have n: "n < - 10000" by simp
  have "10 ^ max_str_digits \<le> \<bar>- n\<bar>" using assms by simp
  then have "fmt_comma (- n) = Inl ValueError" by (simp only: fmt_comma_raises)
  with n show ?thesis by (simp add: net_badge_def)
qed

lemma huge_deletion_raises:
  "calculate_achievements (stats_50_100000\<lparr>total_deleted_lines := 10 ^ max_str_digits + 100000\<rparr>) =
     Inl ValueError"
proof -
  let ?s = "stats_50_100000\<lparr>total_deleted_lines := 10 ^ max_str_digits + 100000\<rparr>"
  have n: "net_badge (total_added_lines ?s - total_deleted_lines ?s) = Inl ValueError"
    by (rule net_badge_raises) (simp add: stats_50_100000_def new_YearStats_def)
  have f: "languages ?s = []" "weekend_days ?s = 0" "most_active_date_commits ?s = 0"
    "max_streak ?s = 0" "active_days ?s = 0"
    by (simp_all add: stats_50_100000_def new_YearStats_def)
  show ?thesis
    unfolding calculate_achievements_def Let_def n f
    by (simp add: language_badge_def weekend_badge_def peak_badge_def streak_badge_def
        active_badge_def)
qed

text \<open>
  Claim C2, as amended. A snapshot with \<open>total_commits = 50\<close> and
  \<open>total_added_lines = 100000\<close> has the volume score 100500, which is above 100000. The
  evaluator returns for such a snapshot unless one of the numbers that the later rules
  print has more than 4300 digits, in which case it raises \<open>ValueError\<close>. Whenever it
  returns, the badges of the volume rule among its result are exactly one, the badge of
  the top tier (named U+5377 U+738B U+672C U+738B), not the second tier.
\<close>

theorem volume_badge_at_100500:
  assumes "total_commits stats = 50" and "total_added_lines stats = 100000"
  shows "case calculate_achievements stats of
           Inl e \<Rightarrow>
             e = ValueError \<and>
             (10 ^ max_str_digits \<le> int (length (languages stats)) \<or>
              10 ^ max_str_digits \<le> \<bar>weekend_days stats\<bar> \<or>
              10 ^ max_str_digits \<le> \<bar>most_active_date_commits stats\<bar> \<or>
              10 ^ max_str_digits \<le> \<bar>max_streak stats\<bar> \<or>
              10 ^ max_str_digits \<le> \<bar>active_days stats\<bar> \<or>
              10 ^ max_str_digits \<le> \<bar>100000 - total_deleted_lines stats\<bar>)
         | Inr a \<Rightarrow>
             filter is_volume_badge a = [volume_badge 100500] \<and>
             fst (volume_badge 100500) = [0x5377, 0x738B, 0x672C, 0x738B]"
proof (cases "calculate_achievements stats")
  case (Inl e)
  have small: "\<bar>total_added_lines stats\<bar> < 2 ^ 53" using assms(2) by simp
  then obtain f where "times_08 (total_added_lines stats) = Inr f"
    using times_08_small by blast
  with Inl have e: "e = ValueError" by (rule calculate_achievements_error)
  have "10 ^ max_str_digits \<le> int (length (languages stats)) \<or>
        10 ^ max_str_digits \<le> \<bar>weekend_days stats\<bar> \<or>
        10 ^ max_str_digits \<le> \<bar>most_active_date_commits stats\<bar> \<or>
        10 ^ max_str_digits \<le> \<bar>max_streak stats\<bar> \<or>
        10 ^ max_str_digits \<le> \<bar>active_days stats\<bar> \<or>
        10 ^ max_str_digits \<le> \<bar>100000 - total_deleted_lines stats\<bar>"
  proof (rule ccontr)
    assume n: "\<not> ?thesis"
    have "\<exists>a. calculate_achievements stats = Inr a"
    proof (rule calculate_achievements_returns [OF small])
      show "\<bar>total_added_lines stats - total_deleted_lines stats\<bar> < 10 ^ max_str_digits"
        using n unfolding assms(2) by (simp only: de_Morgan_disj not_le)
    qed (use n in \<open>simp_all only: de_Morgan_disj not_le\<close>)
    with Inl show False by simp
  qed
  with e show ?thesis unfolding Inl by simp
next
  case (Inr a)
  have "filter is_volume_badge a = [volume_badge 100500]"
    using achievements_volume [OF Inr] assms by simp
  moreover have "fst (volume_badge 100500) = [0x5377, 0x738B, 0x672C, 0x738B]"
    by (simp add: volume_badge_def)
  ultimately show ?thesis unfolding Inr by simp
qed

theorem volume_badge_at_100500_witness:
  "total_commits stats_50_100000 = 50 \<and> total_added_lines stats_50_100000 = 100000 \<and>
   (\<exists>a. calculate_achievements stats_50_100000 = Inr a \<and>
        filter is_volume_badge a = [volume_badge 100500] \<and>
        fst (volume_badge 100500) = [0x5377, 0x738B, 0x672C, 0x738B])"
proof -
  have c: "total_commits stats_50_100000 = 50"
    by (simp add: stats_50_100000_def new_YearStats_def)
  have l: "total_added_lines stats_50_100000 = 100000"
    by (simp add: stats_50_100000_def new_YearStats_def)
  have z: "\<not> (10::int) ^ max_str_digits \<le> 0" "\<not> (10::int) ^ max_str_digits \<le> 100000"
    using below_limit [of 0] below_limit [of 100000] by simp_all
  have f: "languages stats_50_100000 = []" "weekend_days stats_50_100000 = 0"
    "most_active_date_commits stats_50_100000 = 0" "max_streak stats_50_100000 = 0"
    "active_days stats_50_100000 = 0" "total_deleted_lines stats_50_100000 = 0"
    by (simp_all add: stats_50_100000_def new_YearStats_def)
  from volume_badge_at_100500 [OF c l] c l show ?thesis
    unfolding f by (cases "calculate_achievements stats_50_100000") (simp_all add: z)
qed

text \<open>
  The claim as stated fails: for that snapshot the evaluator does not return a list whose
  only volume badge is the second tier (named U+53D1 U+594B U+56FE U+5F3A).
\<close>

theorem volume_tier_counterexample:
  "\<not> (\<exists>a. calculate_achievements stats_50_100000 = Inr a \<and>
          map fst (filter is_volume_badge a) = [[0x53D1, 0x594B, 0x56FE, 0x5F3A]])"
proof
  assume "\<exists>a. calculate_achievements stats_50_100000 = Inr a \<and>
          map fst (filter is_volume_badge a) = [[0x53D1, 0x594B, 0x56FE, 0x5F3A]]"
  then obtain a where a: "calculate_achievements stats_50_100000 = Inr a"
    and n: "map fst (filter is_volume_badge a) = [[0x53D1, 0x594B, 0x56FE, 0x5F3A]]" by auto
  have "filter is_volume_badge a = [volume_badge 100500]"
    using achievements_volume [OF a] by (simp add: stats_50_100000_def new_YearStats_def)
  with n show False by (simp add: volume_badge_def)
qed


section \<open>The loop of analyze_commits in closed form\<close>

lemma add_languages_append:
  "add_languages ex (fs @ gs) d = add_languages ex gs (add_languages ex fs d)"
  by (induction fs arbitrary: d) simp_all

lemma count_files_eq:
  "count_files ex fs stats =
     stats\<lparr>total_added_lines := total_added_lines stats + sum_list (map added_lines fs),
           total_deleted_lines := total_deleted_lines stats + sum_list (map deleted_lines fs),
           languages := add_languages ex fs (languages stats)\<rparr>"
  by (induction fs arbitrary: stats) (auto simp: Let_def split: option.splits)

lemma count_commits_eq: "count_commits lib ex cs v = loop_model lib ex cs v"
proof (induction cs arbitrary: v)
  case Nil
  show ?case by (simp add: loop_model_def)
next
  case (Cons c cs)
  show ?case
    by (simp add: Cons.IH loop_model_def count_commit_def Let_def count_files_eq
        add_languages_append add.assoc)
qed



lemma analyze_commits_stages:
  "analyze_commits lib today commits yr exo =
     (if commits = [] then Inr (new_YearStats yr)
      else
        (case calculate_streak lib today
                (v_active_dates (stats_after_loop lib (exclude_of exo) commits yr)) yr of
           Inl e \<Rightarrow> Inl e
         | Inr (mx, current) \<Rightarrow>
             (case generate_repo_summaries lib commits (exclude_of exo) of
                Inl e \<Rightarrow> Inl e
              | Inr summaries \<Rightarrow>
                  (case calculate_achievements
                          (filled (most_active_stats (stats_after_loop lib (exclude_of exo) commits yr))
                             mx current
                             (v_word_counter (stats_after_loop lib (exclude_of exo) commits yr))
                             summaries) of
                     Inl e \<Rightarrow> Inl e
                   | Inr a \<Rightarrow>
                       Inr ((filled (most_active_stats (stats_after_loop lib (exclude_of exo) commits yr))
                               mx current
                               (v_word_counter (stats_after_loop lib (exclude_of exo) commits yr))
                               summaries)\<lparr>achievements := a\<rparr>)))))"
  unfolding analyze_commits_def Let_def stats_after_loop_def [symmetric] exclude_of_def [symmetric]
    most_active_stats_def filled_def
  by (simp split: sum.splits prod.splits)



lemma calculate_achievements_current:
  "calculate_achievements (stats\<lparr>current_streak := y\<rparr>) = calculate_achievements stats"
  by (simp add: calculate_achievements_def Let_def split: sum.splits)








section \<open>Properties of the snapshot\<close>

lemma analyze_commits_Inr:
  assumes "analyze_commits lib today commits yr exo = Inr stats" and "commits \<noteq> []"
  obtains mx current summaries a where
    "calculate_streak lib today
       (v_active_dates (stats_after_loop lib (exclude_of exo) commits yr)) yr = Inr (mx, current)"
    "generate_repo_summaries lib commits (exclude_of exo) = Inr summaries"
    "calculate_achievements
       (filled (most_active_stats (stats_after_loop lib (exclude_of exo) commits yr)) mx current
          (v_word_counter (stats_after_loop lib (exclude_of exo) commits yr)) summaries) = Inr a"
    "stats =
       (filled (most_active_stats (stats_after_loop lib (exclude_of exo) commits yr)) mx current
          (v_word_counter (stats_after_loop lib (exclude_of exo) commits yr)) summaries)
         \<lparr>achievements := a\<rparr>"
  using assms unfolding analyze_commits_stages
  by (auto split: sum.splits prod.splits)

lemma most_active_stats_fields:
  "total_commits (most_active_stats v) = total_commits (v_stats v)"
  "total_added_lines (most_active_stats v) = total_added_lines (v_stats v)"
  "total_deleted_lines (most_active_stats v) = total_deleted_lines (v_stats v)"
  "languages (most_active_stats v) = languages (v_stats v)"
  "year (most_active_stats v) = year (v_stats v)"
  by (simp_all add: most_active_stats_def Let_def split: list.splits)

lemma after_loop_fields:
  "total_commits (v_stats (stats_after_loop lib ex commits yr)) = int (length commits)"
  "total_added_lines (v_stats (stats_after_loop lib ex commits yr)) =
     sum_list (map added_lines (concat (map files commits)))"
  "total_deleted_lines (v_stats (stats_after_loop lib ex commits yr)) =
     sum_list (map deleted_lines (concat (map files commits)))"
  "languages (v_stats (stats_after_loop lib ex commits yr)) =
     add_languages ex (concat (map files commits)) []"
  "v_word_counter (stats_after_loop lib ex commits yr) =
     foldl (\<lambda>w c. counter_update w (extract_words lib (message c))) [] commits"
  by (simp_all add: stats_after_loop_def count_commits_eq loop_model_def new_YearStats_def)

lemma analyze_commits_fields:
  assumes "analyze_commits lib today commits yr exo = Inr stats"
  shows "total_commits stats = int (length commits)"
    and "total_added_lines stats = sum_list (map added_lines (concat (map files commits)))"
    and "total_deleted_lines stats = sum_list (map deleted_lines (concat (map files commits)))"
    and "languages stats = add_languages (exclude_of exo) (concat (map files commits)) []"
proof -
  have "total_commits stats = int (length commits) \<and>
        total_added_lines stats = sum_list (map added_lines (concat (map files commits))) \<and>
        total_deleted_lines stats = sum_list (map deleted_lines (concat (map files commits))) \<and>
        languages stats = add_languages (exclude_of exo) (concat (map files commits)) []"
  proof (cases "commits = []")
    case True
    with assms show ?thesis by (auto simp: analyze_commits_def new_YearStats_def)
  next
    case False
    from assms False show ?thesis
      by (rule analyze_commits_Inr)
         (simp add: filled_def most_active_stats_fields after_loop_fields)
  qed
  then show "total_commits stats = int (length commits)"
    and "total_added_lines stats = sum_list (map added_lines (concat (map files commits)))"
    and "total_deleted_lines stats = sum_list (map deleted_lines (concat (map files commits)))"
    and "languages stats = add_languages (exclude_of exo) (concat (map files commits)) []"
    by simp_all
qed

lemma sum_list_concat_files:
  "sum_list (map g (concat (map files commits))) = (\<Sum>c\<leftarrow>commits. \<Sum>f\<leftarrow>files c. g f)"
  by (induction commits) simp_all

text \<open>
  Claim C5. For every list of commit records for which the aggregation returns a snapshot,
  \<open>total_added_lines\<close> is the sum of \<open>added_lines\<close> over every file change of every
  commit of the list (all of them are counted), and \<open>total_deleted_lines\<close> is the sum of
  \<open>deleted_lines\<close>.
\<close>

theorem line_totals_are_sums:
  assumes "analyze_commits lib today commits yr exo = Inr stats"
  shows "total_added_lines stats = (\<Sum>c\<leftarrow>commits. \<Sum>f\<leftarrow>files c. added_lines f) \<and>
         total_deleted_lines stats = (\<Sum>c\<leftarrow>commits. \<Sum>f\<leftarrow>files c. deleted_lines f)"
  using analyze_commits_fields(2,3) [OF assms] by (simp add: sum_list_concat_files)

lemma calculate_streak_today:
  "calculate_streak lib t1 a y = Inr (m1, c1) \<Longrightarrow> calculate_streak lib t2 a y = Inr (m2, c2) \<Longrightarrow>
   m1 = m2"
  by (auto simp: calculate_streak_def Let_def split: if_splits option.splits sum.splits)

lemma filled_current:
  "filled stats mx c2 wc summaries = (filled stats mx c1 wc summaries)\<lparr>current_streak := c2\<rparr>"
  by (simp add: filled_def)

text \<open>
  Claim C3, as amended. The source reads the clock in \<open>calculate_streak\<close>
  (\<open>date.today()\<close>); there is no reference date to inject. Two evaluations on the same
  commit list and year, at times of any two dates, that both return a snapshot agree on
  every field except \<open>current_streak\<close>.
\<close>

theorem clock_only_sets_current_streak:
  assumes "analyze_commits lib today1 commits yr exo = Inr stats1"
    and "analyze_commits lib today2 commits yr exo = Inr stats2"
  shows "stats2 = stats1\<lparr>current_streak := current_streak stats2\<rparr>"
proof (cases "commits = []")
  case True
  with assms show ?thesis by (simp add: analyze_commits_def)
next
  case False
  from assms(1) False obtain mx1 c1 s1 a1 where
    1: "calculate_streak lib today1
       (v_active_dates (stats_after_loop lib (exclude_of exo) commits yr)) yr = Inr (mx1, c1)"
    "generate_repo_summaries lib commits (exclude_of exo) = Inr s1"
    "calculate_achievements
       (filled (most_active_stats (stats_after_loop lib (exclude_of exo) commits yr)) mx1 c1
          (v_word_counter (stats_after_loop lib (exclude_of exo) commits yr)) s1) = Inr a1"
    "stats1 =
       (filled (most_active_stats (stats_after_loop lib (exclude_of exo) commits yr)) mx1 c1
          (v_word_counter (stats_after_loop lib (exclude_of exo) commits yr)) s1)
         \<lparr>achievements := a1\<rparr>"
    by (rule analyze_commits_Inr)
  from assms(2) False obtain mx2 c2 s2 a2 where
    2: "calculate_streak lib today2
       (v_active_dates (stats_after_loop lib (exclude_of exo) commits yr)) yr = Inr (mx2, c2)"
    "generate_repo_summaries lib commits (exclude_of exo) = Inr s2"
    "calculate_achievements
       (filled (most_active_stats (stats_after_loop lib (exclude_of exo) commits yr)) mx2 c2
          (v_word_counter (stats_after_loop lib (exclude_of exo) commits yr)) s2) = Inr a2"
    "stats2 =
       (filled (most_active_stats (stats_after_loop lib (exclude_of exo) commits yr)) mx2 c2
          (v_word_counter (stats_after_loop lib (exclude_of exo) commits yr)) s2)
         \<lparr>achievements := a2\<rparr>"
    by (rule analyze_commits_Inr)
  have mx: "mx1 = mx2" using calculate_streak_today [OF 1(1) 2(1)] .
  have s: "s1 = s2" using 1(2) 2(2) by simp
  have "a1 = a2"
    using 1(3) 2(3) unfolding mx s filled_current [of _ mx2 c2 _ s2 c1]
    by (simp add: calculate_achievements_current)
  then show ?thesis
    unfolding 1(4) 2(4) mx s by (simp add: filled_def)
qed



section \<open>The keyword ranking\<close>

lemma set_firsts [simp]: "set (firsts xs) = set xs"
  by (induction xs) auto

lemma distinct_firsts [simp]: "distinct (firsts xs)"
  by (induction xs) (auto simp: distinct_removeAll)

lemma dict_set_keys:
  "map fst (dict_set d k v) = (if k \<in> set (map fst d) then map fst d else map fst d @ [k])"
  by (induction d k v rule: dict_set.induct) auto

lemma dict_get_set:
  "dict_get (dict_set d k v) k' dflt = (if k' = k then v else dict_get d k' dflt)"
  by (induction d k v rule: dict_set.induct) (auto simp: dict_get_def)

lemma dict_get_empty [simp]: "dict_get [] k dflt = dflt"
  by (simp add: dict_get_def)

lemma filter_removeAll: "filter P (removeAll w xs) = filter (\<lambda>x. P x \<and> x \<noteq> w) xs"
  by (induction xs) auto

lemma counter_update_keys:
  "map fst (counter_update c ws) = map fst c @ filter (\<lambda>w. w \<notin> set (map fst c)) (firsts ws)"
proof (induction ws arbitrary: c)
  case Nil
  show ?case by simp
next
  case (Cons w ws)
  show ?case
  proof (cases "w \<in> set (map fst c)")
    case True
    have "filter (\<lambda>x. x \<notin> set (map fst c) \<and> x \<noteq> w) (firsts ws) =
          filter (\<lambda>x. x \<notin> set (map fst c)) (firsts ws)"
      using True by (intro filter_cong) auto
    with True show ?thesis
      by (simp add: Cons.IH dict_add_def dict_set_keys filter_removeAll)
  next
    case False
    have "filter (\<lambda>x. x \<notin> set (map fst c) \<and> x \<noteq> w) (firsts ws) =
          filter (\<lambda>x. x \<noteq> w \<and> x \<notin> set (map fst c)) (firsts ws)"
      by (intro filter_cong) auto
    with False show ?thesis
      by (simp add: Cons.IH dict_add_def dict_set_keys filter_removeAll)
  qed
qed

lemma counter_update_get:
  "dict_get (counter_update c ws) w 0 = dict_get c w 0 + int (count_list ws w)"
  by (induction ws arbitrary: c) (auto simp: dict_add_def dict_get_set)

lemma dict_distinct_eq:
  "distinct (map fst d) \<Longrightarrow> map (\<lambda>k. (k, dict_get d k dflt)) (map fst d) = d"
proof (induction d)
  case Nil
  show ?case by simp
next
  case (Cons p d)
  obtain a b where p: "p = (a, b)" by (cases p)
  have "map (\<lambda>k. (k, dict_get ((a, b) # d) k dflt)) (map fst d) =
        map (\<lambda>k. (k, dict_get d k dflt)) (map fst d)"
    using Cons.prems p by (intro map_cong) (auto simp: dict_get_def)
  with Cons p show ?case by (simp add: dict_get_def)
qed

lemma counter_update_eq:
  "counter_update [] ws = map (\<lambda>w. (w, int (count_list ws w))) (firsts ws)"
proof -
  have k: "map fst (counter_update [] ws) = firsts ws"
    by (simp add: counter_update_keys)
  then have "distinct (map fst (counter_update [] ws))" by simp
  from dict_distinct_eq [OF this, of 0] show ?thesis
    unfolding k by (simp add: counter_update_get)
qed


lemma insort_key_pair:
  "\<forall>y\<in>set ys. g x \<le> g y \<Longrightarrow> insort_key (\<lambda>x. (f x, g x)) x ys = insort_key f x ys"
  by (induction ys) (auto simp: less_eq_prod_def)

lemma sort_key_pair:
  "sorted (map g xs) \<Longrightarrow> sort_key (\<lambda>x. (f x, g x)) xs = sort_key f xs"
proof (induction xs)
  case Nil
  show ?case by simp
next
  case (Cons x xs)
  then have "\<forall>y\<in>set (sort_key f xs). g x \<le> g y" by auto
  with Cons show ?case by (simp add: insort_key_pair)
qed

lemma sort_key_perm:
  assumes "distinct xs" "distinct ys" "set xs = set ys" "inj_on f (set xs)"
  shows "sort_key f xs = sort_key f ys"
proof -
  have "map f (sort_key f xs) = map f (sort_key f ys)"
  proof (rule sorted_distinct_set_unique)
    show "sorted (map f (sort_key f xs))" "sorted (map f (sort_key f ys))" by simp_all
    show "distinct (map f (sort_key f xs))"
      using assms by (simp add: distinct_map)
    show "distinct (map f (sort_key f ys))"
      using assms by (simp add: distinct_map)
    show "set (map f (sort_key f xs)) = set (map f (sort_key f ys))"
      using assms by simp
  qed
  moreover have "inj_on f (set (sort_key f xs) \<union> set (sort_key f ys))"
    using assms by simp
  ultimately show ?thesis by (simp add: inj_on_map_eq_map)
qed

lemma first_index_nth: "w \<in> set xs \<Longrightarrow> xs ! first_index xs w = w"
  by (induction xs) auto

lemma first_index_inj: "inj_on (first_index xs) (set xs)"
  by (rule inj_onI) (metis first_index_nth)

lemma sorted_first_index: "sorted (map (first_index xs) (firsts xs))"
proof (induction xs)
  case Nil
  show ?case by simp
next
  case (Cons x xs)
  let ?r = "removeAll x (firsts xs)"
  have "sorted (map (first_index xs) ?r)"
    using Cons by (simp add: removeAll_filter_not_eq sorted_filter)
  then have s: "sorted (map Suc (map (first_index xs) ?r))"
    by (simp add: sorted_wrt_map sorted_wrt_iff_nth_less del: map_map)
  have m: "map (first_index (x # xs)) ?r = map Suc (map (first_index xs) ?r)"
    by (auto simp: map_eq_conv)
  have "map (first_index (x # xs)) (firsts (x # xs)) = 0 # map (first_index (x # xs)) ?r"
    by simp
  also have "\<dots> = 0 # map Suc (map (first_index xs) ?r)"
    by (simp only: m)
  finally have e: "map (first_index (x # xs)) (firsts (x # xs)) =
                   0 # map Suc (map (first_index xs) ?r)" .
  show ?case unfolding e using s by (simp del: map_map)
qed

lemma most_common_ranking:
  "most_common n (counter_update [] toks) = take n (keyword_ranking toks)"
proof -
  let ?C = "map (\<lambda>w. (w, int (count_list toks w))) (firsts toks)"
  let ?D = "map (\<lambda>w. (w, int (count_list toks w))) (remdups toks)"
  let ?f = "\<lambda>p::pystr \<times> int. - snd p"
  let ?g = "\<lambda>p::pystr \<times> int. first_index toks (fst p)"
  have s: "sorted (map ?g ?C)" using sorted_first_index [of toks] by (simp add: comp_def)
  have inj: "inj_on (\<lambda>w. (w, int (count_list toks w))) A" for A by (rule inj_onI) simp
  have "sort_key (\<lambda>(k, v). - v) ?C = sort_key ?f ?C"
    by (simp add: case_prod_unfold)
  also have "\<dots> = sort_key (\<lambda>p. (?f p, ?g p)) ?C"
    using sort_key_pair [OF s, of ?f] by simp
  also have "\<dots> = sort_key (\<lambda>p. (?f p, ?g p)) ?D"
  proof (rule sort_key_perm)
    show "distinct ?C" by (simp add: distinct_map inj)
    show "distinct ?D" by (simp add: distinct_map inj)
    show "set ?C = set ?D" by simp
    show "inj_on (\<lambda>p. (?f p, ?g p)) (set ?C)"
    proof (rule inj_onI)
      fix p q
      assume p: "p \<in> set ?C" and q: "q \<in> set ?C" and e: "(?f p, ?g p) = (?f q, ?g q)"
      from p q have "fst p \<in> set toks" "fst q \<in> set toks" by auto
      with e have "fst p = fst q" using first_index_inj [of toks] by (auto dest: inj_onD)
      with e show "p = q" by (auto simp: prod_eq_iff)
    qed
  qed
  also have "\<dots> = keyword_ranking toks"
    by (simp add: keyword_ranking_def case_prod_unfold)
  finally show ?thesis by (simp add: most_common_def counter_update_eq)
qed

lemma counter_update_append:
  "counter_update c (xs @ ys) = counter_update (counter_update c xs) ys"
  by (induction xs arbitrary: c) simp_all

lemma foldl_counter_update:
  "foldl (\<lambda>w c. counter_update w (h c)) c0 commits = counter_update c0 (concat (map h commits))"
  by (induction commits arbitrary: c0) (simp_all add: counter_update_append)

lemma analyze_commits_words:
  assumes "analyze_commits lib today commits yr exo = Inr stats"
  shows "commit_words stats =
     take 20 (keyword_ranking (concat (map (\<lambda>c. extract_words lib (message c)) commits)))"
proof (cases "commits = []")
  case True
  with assms show ?thesis
    by (auto simp: analyze_commits_def new_YearStats_def keyword_ranking_def)
next
  case False
  from assms False show ?thesis
    by (rule analyze_commits_Inr)
       (simp add: filled_def after_loop_fields foldl_counter_update most_common_ranking)
qed


section \<open>Evaluation of the examples\<close>

lemmas string_defs = str_simps isspace_def strip_def split_def split_max_def split_ws_def
  replace_char_def is_ascii_def ascii_lower_def lower_def is_digit_def is_word_def
  stop_words_def sub_special_def extract_words_def

lemmas calendar_defs = is_leap_def days_in_month_def days_before_year_def days_before_month_def
  toordinal_def date_of_def weekday_def tm_yday_def prev_day_def pad2_def fmt_year_def
  strftime_date_def strftime_ymd_def strftime_ymd_hm_def valid_date_def strptime_ymd_def
  local_micros_def instant_def is_aware_def sort_datetimes_def digits_of.simps decimal_value_def
  upt_rec

lemmas dict_defs = dict_get_def dict_add_def most_common_def set_add_def

lemmas summary_defs = generate_repo_summaries_def summarize_repo_def new_RepoSummary_def
  analyze_main_work_def work_patterns_def

lemmas example_defs = noon_def mk_commit_def mk_file_def ascii_lib_def ymd_def example_commits_def

text \<open>
  The numbers that the achievement rules print are bounded by the size of the input, so the
  rules return on every input of a size that exists.
\<close>

lemma length_dict_set: "length (dict_set d k v) \<le> Suc (length d)"
  by (induction d k v rule: dict_set.induct) simp_all

lemma length_add_languages: "length (add_languages ex fs d) \<le> length d + length fs"
proof (induction fs arbitrary: d)
  case Nil
  show ?case by simp
next
  case (Cons f fs)
  let ?d = "case language f of None \<Rightarrow> d
            | Some l \<Rightarrow> if l \<noteq> [] \<and> l \<notin> ex then dict_set d l (dict_get d l 0 + added_lines f) else d"
  have "length ?d \<le> Suc (length d)"
    using length_dict_set [of d] by (auto split: option.splits intro: le_SucI)
  moreover have "length (add_languages ex fs ?d) \<le> length ?d + length fs" by (rule Cons.IH)
  ultimately show ?case by simp
qed

lemma length_set_add: "length (set_add s x) \<le> Suc (length s)"
  by (simp add: set_add_def)

lemma length_foldl_set_add:
  "length (foldl (\<lambda>a c. if P c then set_add a (k c) else a) a0 cs) \<le> length a0 + length cs"
proof (induction cs arbitrary: a0)
  case Nil
  show ?case by simp
next
  case (Cons c cs)
  let ?a = "if P c then set_add a0 (k c) else a0"
  have "length ?a \<le> Suc (length a0)" using length_set_add [of a0] by (auto intro: le_SucI)
  moreover have "length (foldl (\<lambda>a c. if P c then set_add a (k c) else a) ?a cs) \<le>
                 length ?a + length cs" by (rule Cons.IH)
  ultimately show ?case by simp
qed

lemma dict_set_subset: "set (dict_set d k v) \<subseteq> insert (k, v) (set d)"
  by (induction d k v rule: dict_set.induct) auto

lemma dict_get_cases: "dict_get d k dflt = dflt \<or> (k, dict_get d k dflt) \<in> set d"
  by (auto simp: dict_get_def split: option.splits dest: map_of_SomeD)

lemma group_sizes:
  assumes "\<forall>(k, l) \<in> set d. length l \<le> n"
  shows "\<forall>(k, l) \<in> set (foldl (\<lambda>d c. dict_set d (key c) (dict_get d (key c) [] @ [c])) d cs).
           length l \<le> n + length cs"
  using assms
proof (induction cs arbitrary: d n)
  case Nil
  then show ?case by simp
next
  case (Cons c cs)
  let ?d = "dict_set d (key c) (dict_get d (key c) [] @ [c])"
  have g: "length (dict_get d (key c) []) \<le> n"
    using dict_get_cases [of d "key c" "[]"] Cons.prems by auto
  have "length l \<le> Suc n" if "(k, l) \<in> set ?d" for k l
  proof -
    from that dict_set_subset [of d "key c" "dict_get d (key c) [] @ [c]"]
    have "(k, l) = (key c, dict_get d (key c) [] @ [c]) \<or> (k, l) \<in> set d" by blast
    then show ?thesis
    proof
      assume "(k, l) = (key c, dict_get d (key c) [] @ [c])"
      with g show ?thesis by simp
    next
      assume "(k, l) \<in> set d"
      with Cons.prems have "length l \<le> n" by blast
      then show ?thesis by simp
    qed
  qed
  then have "\<forall>(k, l) \<in> set ?d. length l \<le> Suc n" by blast
  from Cons.IH [OF this] show ?case by simp
qed

lemma max_by_mem: "max_by f x xs \<in> set (x # xs)"
proof (induction xs arbitrary: x)
  case Nil
  show ?case by simp
next
  case (Cons a xs)
  show ?case using Cons.IH [of a] Cons.IH [of x] by auto
qed

lemma after_loop_by_date:
  "v_commits_by_date (stats_after_loop lib ex commits yr) =
     foldl (\<lambda>d c. dict_set d (strftime_ymd lib (date c))
                     (dict_get d (strftime_ymd lib (date c)) [] @ [c])) [] commits"
  by (simp add: stats_after_loop_def count_commits_eq loop_model_def)

lemma most_active_stats_days:
  "active_days (most_active_stats v) = int (length (v_active_dates v))"
  "weekend_days (most_active_stats v) = int (length (v_weekend_dates v))"
  by (simp_all add: most_active_stats_def Let_def split: list.splits)

lemma after_loop_dates:
  "v_active_dates (stats_after_loop lib ex commits yr) =
     foldl (\<lambda>a c. set_add a (strftime_ymd lib (date c))) [] commits"
  by (simp add: stats_after_loop_def count_commits_eq loop_model_def)

lemma after_loop_dates2:
  "v_weekend_dates (stats_after_loop lib ex commits yr) =
     foldl (\<lambda>a c. if weekday (date c) \<ge> 5 then set_add a (strftime_ymd lib (date c)) else a)
       [] commits"
  by (simp add: stats_after_loop_def count_commits_eq loop_model_def)

lemma most_active_commits_bound:
  "\<bar>most_active_date_commits (most_active_stats (stats_after_loop lib ex commits yr))\<bar> \<le>
   int (length commits)"
proof (cases "v_commits_by_date (stats_after_loop lib ex commits yr)")
  case Nil
  then show ?thesis
    by (simp add: most_active_stats_def Let_def split: list.splits)
       (simp add: stats_after_loop_def count_commits_eq loop_model_def new_YearStats_def)
next
  case (Cons x xs)
  let ?m = "max_by (\<lambda>x. int (length (snd x))) x xs"
  have "?m \<in> set (v_commits_by_date (stats_after_loop lib ex commits yr))"
    unfolding Cons by (rule max_by_mem)
  moreover have "\<forall>(k, l) \<in> set (v_commits_by_date (stats_after_loop lib ex commits yr)).
                   length l \<le> 0 + length commits"
    unfolding after_loop_by_date by (rule group_sizes) simp
  ultimately have "length (snd ?m) \<le> length commits" by (cases ?m) auto
  then show ?thesis
    using Cons by (simp add: most_active_stats_def Let_def split: list.splits)
qed

lemma achievements_after_loop_return:
  assumes "\<bar>sum_list (map added_lines (concat (map files commits)))\<bar> < 2 ^ 53"
    and "\<bar>sum_list (map added_lines (concat (map files commits))) -
          sum_list (map deleted_lines (concat (map files commits)))\<bar> < 10 ^ max_str_digits"
    and "int (length commits) < 10 ^ max_str_digits"
    and "int (length (concat (map files commits))) < 10 ^ max_str_digits"
    and "\<bar>mx\<bar> < 10 ^ max_str_digits"
  shows "\<exists>a. calculate_achievements
           (filled (most_active_stats (stats_after_loop lib ex commits yr)) mx current wc summaries) =
           Inr a"
proof (rule calculate_achievements_returns)
  let ?v = "stats_after_loop lib ex commits yr"
  let ?s = "filled (most_active_stats ?v) mx current wc summaries"
  show "\<bar>total_added_lines ?s\<bar> < 2 ^ 53"
    using assms(1) by (simp add: filled_def most_active_stats_fields after_loop_fields)
  show "\<bar>total_added_lines ?s - total_deleted_lines ?s\<bar> < 10 ^ max_str_digits"
    using assms(2) by (simp add: filled_def most_active_stats_fields after_loop_fields)
  have "length (add_languages ex (concat (map files commits)) []) \<le>
        length (concat (map files commits))"
    using length_add_languages [of ex "concat (map files commits)" "[]"] by simp
  then show "int (length (languages ?s)) < 10 ^ max_str_digits"
    using assms(4) by (simp add: filled_def most_active_stats_fields after_loop_fields)
  have "length (v_weekend_dates ?v) \<le> length commits"
    unfolding after_loop_dates2
    using length_foldl_set_add [of "\<lambda>c. weekday (date c) \<ge> 5" _ "[]" commits] by simp
  then show "\<bar>weekend_days ?s\<bar> < 10 ^ max_str_digits"
    using assms(3) by (simp add: filled_def most_active_stats_days)
  have "length (v_active_dates ?v) \<le> length commits"
    unfolding after_loop_dates
    using length_foldl_set_add [of "\<lambda>c. True" _ "[]" commits] by simp
  then show "\<bar>active_days ?s\<bar> < 10 ^ max_str_digits"
    using assms(3) by (simp add: filled_def most_active_stats_days)
  have "most_active_date_commits ?s = most_active_date_commits (most_active_stats ?v)"
    by (simp add: filled_def)
  then show "\<bar>most_active_date_commits ?s\<bar> < 10 ^ max_str_digits"
    using le_less_trans [OF most_active_commits_bound [of lib ex commits yr] assms(3)]
    by (simp only:)
  show "\<bar>max_streak ?s\<bar> < 10 ^ max_str_digits"
    using assms(5) by (simp add: filled_def)
qed

lemma analyze_commits_InrI:
  assumes "commits \<noteq> []"
    and "calculate_streak lib today
       (v_active_dates (stats_after_loop lib (exclude_of exo) commits yr)) yr = Inr (mx, current)"
    and "generate_repo_summaries lib commits (exclude_of exo) = Inr summaries"
    and "calculate_achievements
       (filled (most_active_stats (stats_after_loop lib (exclude_of exo) commits yr)) mx current
          (v_word_counter (stats_after_loop lib (exclude_of exo) commits yr)) summaries) = Inr a"
  shows "analyze_commits lib today commits yr exo =
     Inr ((filled (most_active_stats (stats_after_loop lib (exclude_of exo) commits yr)) mx current
            (v_word_counter (stats_after_loop lib (exclude_of exo) commits yr)) summaries)
           \<lparr>achievements := a\<rparr>)"
  using assms unfolding analyze_commits_stages by simp

lemma example_active_dates:
  "v_active_dates (stats_after_loop ascii_lib ex example_commits yr) =
     [str ''2024-03-04'', str ''2024-03-05'']"
  by (simp add: after_loop_dates example_defs calendar_defs set_add_def str_simps)

lemma example_streak:
  "calculate_streak ascii_lib (ymd 2024 3 5) [str ''2024-03-04'', str ''2024-03-05''] yr = Inr (2, 2)"
  "calculate_streak ascii_lib (ymd 2024 3 7) [str ''2024-03-04'', str ''2024-03-05''] yr = Inr (2, 0)"
  by (simp_all add: calculate_streak_def walk_back.simps date_key_def calendar_defs string_defs
      example_defs Let_def)

lemma example_summaries:
  "\<exists>summaries. generate_repo_summaries ascii_lib example_commits DEFAULT_EXCLUDE_LANGUAGES =
      Inr summaries \<and> map rs_name summaries = [str ''repo'']"
  by (simp add: summary_defs Let_def DEFAULT_EXCLUDE_LANGUAGES_def string_defs calendar_defs
      dict_defs example_defs)

lemma example_analysis:
  assumes "calculate_streak ascii_lib today [str ''2024-03-04'', str ''2024-03-05''] 2024 =
           Inr (mx, current)"
  shows "\<exists>s. analyze_commits ascii_lib today example_commits 2024 None = Inr s \<and>
     total_commits s = 2 \<and> total_added_lines s = 15 \<and> total_deleted_lines s = 2 \<and>
     active_days s = 2 \<and> languages s = [(str ''Python'', 10)] \<and> max_streak s = mx \<and>
     current_streak s = current \<and> repos_count s = 1"
proof -
  let ?v = "stats_after_loop ascii_lib (exclude_of None) example_commits 2024"
  have ne: "example_commits \<noteq> []" by (simp add: example_commits_def)
  have st: "calculate_streak ascii_lib today (v_active_dates ?v) 2024 = Inr (mx, current)"
    using assms by (simp add: example_active_dates)
  obtain summaries where
    su: "generate_repo_summaries ascii_lib example_commits (exclude_of None) = Inr summaries"
    and n: "map rs_name summaries = [str ''repo'']"
    using example_summaries by (auto simp: exclude_of_def)
  have mx: "\<bar>mx\<bar> < 10 ^ max_str_digits"
    using assms
    by (auto simp: calculate_streak_def walk_back.simps date_key_def calendar_defs string_defs
        example_defs Let_def below_limit split: sum.splits)
  have "\<exists>a. calculate_achievements
       (filled (most_active_stats ?v) mx current (v_word_counter ?v) summaries) = Inr a"
    by (rule achievements_after_loop_return) (simp_all add: example_defs below_limit mx)
  then obtain a where
    a: "calculate_achievements
       (filled (most_active_stats ?v) mx current (v_word_counter ?v) summaries) = Inr a" ..
  have len: "length summaries = 1" using n by (metis length_map length_Cons list.size(3) One_nat_def)
  note r = analyze_commits_InrI [OF ne st su a]
  show ?thesis
    unfolding r
    by (simp add: filled_def most_active_stats_fields most_active_stats_days after_loop_fields
        example_active_dates len)
       (simp add: example_defs exclude_of_def DEFAULT_EXCLUDE_LANGUAGES_def dict_get_def str_simps)
qed


section \<open>The aggregation properties on the example\<close>

theorem line_totals_are_sums_witness:
  "\<exists>s. analyze_commits ascii_lib (ymd 2024 3 5) example_commits 2024 None = Inr s \<and>
       total_added_lines s = 15 \<and> total_deleted_lines s = 2"
proof -
  obtain s where s: "analyze_commits ascii_lib (ymd 2024 3 5) example_commits 2024 None = Inr s"
    using example_analysis [OF example_streak(1)] by auto
  from line_totals_are_sums [OF s] show ?thesis
    using s by (simp add: example_defs)
qed

theorem clock_only_sets_current_streak_witness:
  "\<exists>s1 s2. analyze_commits ascii_lib (ymd 2024 3 5) example_commits 2024 None = Inr s1 \<and>
           analyze_commits ascii_lib (ymd 2024 3 7) example_commits 2024 None = Inr s2 \<and>
           s2 = s1\<lparr>current_streak := current_streak s2\<rparr> \<and>
           current_streak s1 = 2 \<and> current_streak s2 = 0"
proof -
  obtain s1 where s1: "analyze_commits ascii_lib (ymd 2024 3 5) example_commits 2024 None = Inr s1"
    and c1: "current_streak s1 = 2"
    using example_analysis [OF example_streak(1)] by auto
  obtain s2 where s2: "analyze_commits ascii_lib (ymd 2024 3 7) example_commits 2024 None = Inr s2"
    and c2: "current_streak s2 = 0"
    using example_analysis [OF example_streak(2)] by auto
  from clock_only_sets_current_streak [OF s1 s2] s1 s2 c1 c2 show ?thesis by blast
qed

text \<open>
  The claim as stated fails: the same commit list and year, evaluated on 2024-03-05 and on
  2024-03-07, give different snapshots (the current streak is 2 on the first day and 0 on
  the second).
\<close>

theorem aggregate_depends_on_clock_counterexample:
  "analyze_commits ascii_lib (ymd 2024 3 5) example_commits 2024 None \<noteq>
   analyze_commits ascii_lib (ymd 2024 3 7) example_commits 2024 None"
proof
  assume e: "analyze_commits ascii_lib (ymd 2024 3 5) example_commits 2024 None =
             analyze_commits ascii_lib (ymd 2024 3 7) example_commits 2024 None"
  obtain s1 where s1: "analyze_commits ascii_lib (ymd 2024 3 5) example_commits 2024 None = Inr s1"
    and c1: "current_streak s1 = 2"
    using example_analysis [OF example_streak(1)] by auto
  obtain s2 where s2: "analyze_commits ascii_lib (ymd 2024 3 7) example_commits 2024 None = Inr s2"
    and c2: "current_streak s2 = 0"
    using example_analysis [OF example_streak(2)] by auto
  from e s1 s2 have "s1 = s2" by simp
  with c1 c2 show False by simp
qed


section \<open>Keywords of the snapshot\<close>

lemma analyze_commits_returns:
  assumes "commits \<noteq> []"
    and "calculate_streak lib today
           (foldl (\<lambda>a c. set_add a (strftime_ymd lib (date c))) [] commits) yr = Inr (mx, current)"
    and "generate_repo_summaries lib commits (exclude_of exo) = Inr summaries"
    and "\<bar>sum_list (map added_lines (concat (map files commits)))\<bar> < 2 ^ 53"
    and "\<bar>sum_list (map added_lines (concat (map files commits))) -
          sum_list (map deleted_lines (concat (map files commits)))\<bar> < 10 ^ 15"
    and "int (length commits) < 10 ^ 15"
    and "int (length (concat (map files commits))) < 10 ^ 15"
    and "\<bar>mx\<bar> < 10 ^ 15"
  shows "\<exists>s. analyze_commits lib today commits yr exo = Inr s \<and>
     max_streak s = mx \<and> current_streak s = current \<and> repo_summaries s = summaries \<and>
     repos_count s = int (length summaries) \<and>
     active_days s =
       int (length (foldl (\<lambda>a c. set_add a (strftime_ymd lib (date c))) [] commits))"
proof -
  let ?v = "stats_after_loop lib (exclude_of exo) commits yr"
  have st: "calculate_streak lib today (v_active_dates ?v) yr = Inr (mx, current)"
    using assms(2) by (simp add: after_loop_dates)
  have "\<exists>a. calculate_achievements
       (filled (most_active_stats ?v) mx current (v_word_counter ?v) summaries) = Inr a"
    by (rule achievements_after_loop_return
          [OF assms(4) below_limit [OF assms(5)] below_limit [OF assms(6)]
              below_limit [OF assms(7)] below_limit [OF assms(8)]])
  then obtain a where
    a: "calculate_achievements
       (filled (most_active_stats ?v) mx current (v_word_counter ?v) summaries) = Inr a" ..
  note r = analyze_commits_InrI [OF assms(1) st assms(3) a]
  show ?thesis
    unfolding r
    by (simp add: filled_def most_active_stats_days after_loop_dates)
qed

text \<open>
  Claim C6. The keywords of a returned snapshot are the first twenty of the ranking by
  descending frequency in which tokens of equal frequency come in the order of their first
  occurrence in the stream of tokens, the messages being tokenized in input order. In
  particular, for the messages \<open>alpha beta\<close> and \<open>beta alpha\<close> the ranking is
  \<open>alpha\<close> before \<open>beta\<close>, both with frequency 2.
\<close>

theorem keywords_by_frequency_then_first_seen:
  assumes "analyze_commits lib today commits yr exo = Inr stats"
  shows "commit_words stats =
           take 20 (keyword_ranking (concat (map (\<lambda>c. extract_words lib (message c)) commits))) \<and>
         (map message commits = [str ''alpha beta'', str ''beta alpha''] \<longrightarrow>
            commit_words stats = [(str ''alpha'', 2), (str ''beta'', 2)])"
proof -
  let ?toks = "concat (map (\<lambda>c. extract_words lib (message c)) commits)"
  have w: "commit_words stats = take 20 (keyword_ranking ?toks)"
    using assms by (rule analyze_commits_words)
  have "commit_words stats = [(str ''alpha'', 2), (str ''beta'', 2)]"
    if m: "map message commits = [str ''alpha beta'', str ''beta alpha'']"
  proof -
    have "?toks = concat (map (extract_words lib) (map message commits))"
      by (simp add: comp_def)
    also have "\<dots> = [str ''alpha'', str ''beta'', str ''beta'', str ''alpha'']"
      unfolding m by (simp add: string_defs)
    finally have t: "?toks = [str ''alpha'', str ''beta'', str ''beta'', str ''alpha'']" .
    show ?thesis unfolding w t
      by (simp add: keyword_ranking_def str_simps less_eq_prod_def)
  qed
  with w show ?thesis by blast
qed

lemma alpha_beta_streak:
  "calculate_streak ascii_lib (ymd 2024 3 5)
     (foldl (\<lambda>a c. set_add a (strftime_ymd ascii_lib (date c))) [] alpha_beta_commits) 2024 =
   Inr (2, 2)"
  by (simp add: calculate_streak_def walk_back.simps date_key_def calendar_defs string_defs
      example_defs alpha_beta_commits_def set_add_def Let_def)

lemma alpha_beta_summaries:
  "\<exists>summaries. generate_repo_summaries ascii_lib alpha_beta_commits DEFAULT_EXCLUDE_LANGUAGES =
      Inr summaries"
  by (simp add: summary_defs Let_def DEFAULT_EXCLUDE_LANGUAGES_def string_defs calendar_defs
      dict_defs example_defs alpha_beta_commits_def)

theorem keywords_by_frequency_then_first_seen_witness:
  "\<exists>s. analyze_commits ascii_lib (ymd 2024 3 5) alpha_beta_commits 2024 None = Inr s \<and>
       map message alpha_beta_commits = [str ''alpha beta'', str ''beta alpha''] \<and>
       commit_words s = [(str ''alpha'', 2), (str ''beta'', 2)]"
proof -
  obtain summaries where su:
    "generate_repo_summaries ascii_lib alpha_beta_commits (exclude_of None) = Inr summaries"
    using alpha_beta_summaries by (auto simp: exclude_of_def)
  have ne: "alpha_beta_commits \<noteq> []" by (simp add: alpha_beta_commits_def)
  have sm: "\<bar>sum_list (map added_lines (concat (map files alpha_beta_commits)))\<bar> < 2 ^ 53"
    by (simp add: alpha_beta_commits_def example_defs)
  have b: "\<bar>sum_list (map added_lines (concat (map files alpha_beta_commits))) -
            sum_list (map deleted_lines (concat (map files alpha_beta_commits)))\<bar> < 10 ^ 15"
    "int (length alpha_beta_commits) < 10 ^ 15"
    "int (length (concat (map files alpha_beta_commits))) < 10 ^ 15" "\<bar>2::int\<bar> < 10 ^ 15"
    by (simp_all add: alpha_beta_commits_def example_defs)
  obtain s where s: "analyze_commits ascii_lib (ymd 2024 3 5) alpha_beta_commits 2024 None = Inr s"
    using analyze_commits_returns [OF ne alpha_beta_streak su sm b] by auto
  have m: "map message alpha_beta_commits = [str ''alpha beta'', str ''beta alpha'']"
    by (simp add: alpha_beta_commits_def example_defs)
  from keywords_by_frequency_then_first_seen [OF s]
  have "map message alpha_beta_commits = [str ''alpha beta'', str ''beta alpha''] \<longrightarrow>
        commit_words s = [(str ''alpha'', 2), (str ''beta'', 2)]"
    by (rule conjunct2)
  from this m have "commit_words s = [(str ''alpha'', 2), (str ''beta'', 2)]" by (rule mp)
  with s m show ?thesis by (intro exI conjI)
qed


section \<open>Repository summaries and excluded languages\<close>

lemma group_by_repo_filter:
  "group_by_repo commits d = group_by_repo (filter (\<lambda>c. repo_name c \<noteq> []) commits) d"
  by (induction commits arbitrary: d) simp_all

lemma dict_set_key_set: "fst ` set (dict_set d k v) = insert k (fst ` set d)"
  by (induction d k v rule: dict_set.induct) auto

lemma group_by_repo_keys:
  "fst ` set (group_by_repo commits d) = fst ` set d \<union> (repo_name ` set commits - {[]})"
  by (induction commits arbitrary: d) (auto simp: dict_set_key_set)

lemma group_by_repo_distinct:
  "distinct (map fst d) \<Longrightarrow> distinct (map fst (group_by_repo commits d))"
  by (induction commits arbitrary: d) (auto simp: dict_set_keys)

lemma summarize_files_name:
  "rs_name (sv_summary (summarize_files ex fs v)) = rs_name (sv_summary v)"
  by (induction fs arbitrary: v) (simp_all add: Let_def)

lemma summarize_commits_name:
  "rs_name (sv_summary (summarize_commits lib ex cs v)) = rs_name (sv_summary v)"
  by (induction cs arbitrary: v) (simp_all add: Let_def summarize_files_name)

lemma summarize_repo_name:
  "summarize_repo lib ex name cs = Inr s \<Longrightarrow> rs_name s = name"
  by (auto simp: summarize_repo_def Let_def summarize_commits_name new_RepoSummary_def
           split: if_splits sum.splits)

lemma summarize_repos_names:
  "summarize_repos lib ex items acc = Inr sums \<Longrightarrow>
   map rs_name sums = map rs_name acc @ map fst items"
proof (induction items arbitrary: acc)
  case Nil
  then show ?case by simp
next
  case (Cons p items)
  obtain name cs where p: "p = (name, cs)" by (cases p)
  from Cons.prems p obtain s where s: "summarize_repo lib ex name cs = Inr s"
    and r: "summarize_repos lib ex items (acc @ [s]) = Inr sums"
    by (auto split: sum.splits)
  from Cons.IH [OF r] summarize_repo_name [OF s] p show ?case by simp
qed

lemma generate_repo_summaries_filter:
  "generate_repo_summaries lib commits ex =
   generate_repo_summaries lib (filter (\<lambda>c. repo_name c \<noteq> []) commits) ex"
  unfolding generate_repo_summaries_def group_by_repo_filter [of commits] by simp

lemma generate_repo_summaries_names:
  assumes "generate_repo_summaries lib commits ex = Inr sums"
  shows "set (map rs_name sums) = set (map repo_name commits) - {[]}"
    and "length sums = card (set (map repo_name commits) - {[]})"
proof -
  from assms obtain sums0 where
    s0: "summarize_repos lib ex (group_by_repo commits []) [] = Inr sums0"
    and sums: "sums = sort_key (\<lambda>x. - rs_commits x) sums0"
    by (auto simp: generate_repo_summaries_def Let_def split: sum.splits)
  have n: "map rs_name sums0 = map fst (group_by_repo commits [])"
    using summarize_repos_names [OF s0] by simp
  have k: "set (map fst (group_by_repo commits [])) = set (map repo_name commits) - {[]}"
    using group_by_repo_keys [of commits "[]"] by simp
  have "set (map rs_name sums) = set (map rs_name sums0)"
    unfolding sums by simp
  also have "\<dots> = set (map repo_name commits) - {[]}"
    by (simp only: n k)
  finally show "set (map rs_name sums) = set (map repo_name commits) - {[]}" .
  have d: "distinct (map fst (group_by_repo commits []))"
    by (rule group_by_repo_distinct) simp
  have "length sums = length (map rs_name sums0)"
    unfolding sums by simp
  also have "\<dots> = length (map fst (group_by_repo commits []))"
    by (simp only: n)
  also have "\<dots> = card (set (map fst (group_by_repo commits [])))"
    using distinct_card [OF d] by simp
  also have "\<dots> = card (set (map repo_name commits) - {[]})"
    by (simp only: k)
  finally show "length sums = card (set (map repo_name commits) - {[]})" .
qed

lemma set_add_foldl:
  "set (foldl (\<lambda>a c. set_add a (h c)) a0 cs) = set a0 \<union> set (map h cs)"
  by (induction cs arbitrary: a0) (auto simp: set_add_def)

lemma set_add_foldl_distinct:
  "distinct a0 \<Longrightarrow> distinct (foldl (\<lambda>a c. set_add a (h c)) a0 cs)"
  by (induction cs arbitrary: a0) (auto simp: set_add_def)

lemma active_dates_length:
  "length (foldl (\<lambda>a c. set_add a (h c)) [] cs) = card (set (map h cs))"
proof -
  have "distinct (foldl (\<lambda>a c. set_add a (h c)) [] cs)"
    by (rule set_add_foldl_distinct) simp
  from distinct_card [OF this] show ?thesis by (simp add: set_add_foldl)
qed

lemma analyze_commits_summaries:
  assumes "analyze_commits lib today commits yr exo = Inr stats"
  shows "generate_repo_summaries lib commits (exclude_of exo) = Inr (repo_summaries stats)"
    and "repos_count stats = int (length (repo_summaries stats))"
    and "active_days stats = int (card (set (map (\<lambda>c. strftime_ymd lib (date c)) commits)))"
proof -
  have "generate_repo_summaries lib commits (exclude_of exo) = Inr (repo_summaries stats) \<and>
        repos_count stats = int (length (repo_summaries stats)) \<and>
        active_days stats = int (card (set (map (\<lambda>c. strftime_ymd lib (date c)) commits)))"
  proof (cases "commits = []")
    case True
    with assms show ?thesis
      by (auto simp: analyze_commits_def new_YearStats_def generate_repo_summaries_def)
  next
    case False
    from assms False show ?thesis
      by (rule analyze_commits_Inr)
         (simp add: filled_def most_active_stats_days after_loop_dates active_dates_length)
  qed
  then show "generate_repo_summaries lib commits (exclude_of exo) = Inr (repo_summaries stats)"
    and "repos_count stats = int (length (repo_summaries stats))"
    and "active_days stats = int (card (set (map (\<lambda>c. strftime_ymd lib (date c)) commits)))"
    by simp_all
qed

text \<open>
  Claim C10. For every input on which the aggregation returns a snapshot: every commit,
  labelled or not, is counted in the global figures (the number of commits, the line
  totals, the active days, the keywords); the repository summaries are those of the
  commits with a non-empty label alone, no summary has the empty name, and
  \<open>repos_count\<close> is the number of distinct non-empty labels. So a commit with an empty
  label contributes to no summary and not to \<open>repos_count\<close>, which is then smaller than
  the number of distinct labels.
\<close>

theorem unlabelled_commits_have_no_summary:
  assumes "analyze_commits lib today commits yr exo = Inr stats"
  shows "total_commits stats = int (length commits) \<and>
         total_added_lines stats = (\<Sum>c\<leftarrow>commits. \<Sum>f\<leftarrow>files c. added_lines f) \<and>
         total_deleted_lines stats = (\<Sum>c\<leftarrow>commits. \<Sum>f\<leftarrow>files c. deleted_lines f) \<and>
         active_days stats = int (card (set (map (\<lambda>c. strftime_ymd lib (date c)) commits))) \<and>
         commit_words stats =
           take 20 (keyword_ranking (concat (map (\<lambda>c. extract_words lib (message c)) commits))) \<and>
         generate_repo_summaries lib (filter (\<lambda>c. repo_name c \<noteq> []) commits) (exclude_of exo) =
           Inr (repo_summaries stats) \<and>
         set (map rs_name (repo_summaries stats)) = set (map repo_name commits) - {[]} \<and>
         repos_count stats = int (card (set (map repo_name commits) - {[]}))"
proof -
  note f = analyze_commits_fields [OF assms]
  note s = analyze_commits_summaries [OF assms]
  note n = generate_repo_summaries_names [OF s(1)]
  have g: "generate_repo_summaries lib (filter (\<lambda>c. repo_name c \<noteq> []) commits) (exclude_of exo) =
           Inr (repo_summaries stats)"
    using s(1) generate_repo_summaries_filter [of lib commits "exclude_of exo"] by simp
  show ?thesis
    using f(1) f(2) f(3) s(3) analyze_commits_words [OF assms] g n(1) s(2) n(2)
    by (simp add: sum_list_concat_files)
qed

lemma add_languages_excluded:
  assumes "language f = Some l" and "l \<in> ex"
  shows "add_languages ex (fs1 @ f # fs2) d = add_languages ex (fs1 @ fs2) d"
  using assms by (simp add: add_languages_append)

text \<open>
  Claim C7. Adding to a commit a file change whose language is in the default excluded set
  (Markdown, JSON, YAML, XML, reStructuredText) adds its line counts to
  \<open>total_added_lines\<close> and \<open>total_deleted_lines\<close> and leaves the \<open>languages\<close> mapping
  of the snapshot as it is, wherever the commit stands in the list and the file in the
  commit.
\<close>

theorem excluded_language_counts_lines_only:
  assumes "language f = Some l" and "l \<in> DEFAULT_EXCLUDE_LANGUAGES"
    and "analyze_commits lib today (cs1 @ c\<lparr>files := fs1 @ fs2\<rparr> # cs2) yr None = Inr stats"
    and "analyze_commits lib today (cs1 @ c\<lparr>files := fs1 @ f # fs2\<rparr> # cs2) yr None = Inr stats'"
  shows "total_added_lines stats' = total_added_lines stats + added_lines f \<and>
         total_deleted_lines stats' = total_deleted_lines stats + deleted_lines f \<and>
         languages stats' = languages stats"
proof -
  note a = analyze_commits_fields [OF assms(3)]
  note b = analyze_commits_fields [OF assms(4)]
  have l: "add_languages DEFAULT_EXCLUDE_LANGUAGES
             (concat (map files cs1) @ (fs1 @ f # fs2) @ concat (map files cs2)) [] =
           add_languages DEFAULT_EXCLUDE_LANGUAGES
             (concat (map files cs1) @ (fs1 @ fs2) @ concat (map files cs2)) []"
    using add_languages_excluded [OF assms(1,2), of "concat (map files cs1) @ fs1"
        "fs2 @ concat (map files cs2)" "[]"] by simp
  show ?thesis
    unfolding a(2) a(3) a(4) b(2) b(3) b(4) using l by (simp add: exclude_of_def)
qed


lemma summarize_files_dates:
  "sv_commit_dates (summarize_files ex fs v) = sv_commit_dates v"
  by (induction fs arbitrary: v) (simp_all add: Let_def)

lemma summarize_commits_dates:
  "sv_commit_dates (summarize_commits lib ex cs v) = sv_commit_dates v @ map date cs"
  by (induction cs arbitrary: v) (simp_all add: Let_def summarize_files_dates)

lemma summarize_repo_total:
  assumes "list_all (\<lambda>c. is_aware (date c)) cs"
  shows "\<exists>s. summarize_repo lib ex name cs = Inr s"
proof -
  have "list_all is_aware (map date cs)"
    using assms by (simp add: list_all_iff)
  then show ?thesis
    by (simp add: summarize_repo_def Let_def summarize_commits_dates sort_datetimes_def)
qed

lemma dict_get_all:
  "list_all (\<lambda>(k, l). list_all P l) d \<Longrightarrow> list_all P (dict_get d k [])"
  by (induction d) (auto simp: dict_get_def split: if_splits)

lemma dict_set_all:
  "list_all (\<lambda>(k, l). list_all P l) d \<Longrightarrow> list_all P l' \<Longrightarrow>
   list_all (\<lambda>(k, l). list_all P l) (dict_set d k l')"
  by (induction d k l' rule: dict_set.induct) auto

lemma group_by_repo_all:
  "list_all P commits \<Longrightarrow> list_all (\<lambda>(k, l). list_all P l) d \<Longrightarrow>
   list_all (\<lambda>(k, l). list_all P l) (group_by_repo commits d)"
  by (induction commits arbitrary: d) (simp_all add: dict_set_all dict_get_all)

lemma summarize_repos_total:
  "list_all (\<lambda>(k, l). list_all (\<lambda>c. is_aware (date c)) l) items \<Longrightarrow>
   \<exists>sums. summarize_repos lib ex items acc = Inr sums"
proof (induction items arbitrary: acc)
  case Nil
  show ?case by simp
next
  case (Cons p items)
  obtain name cs where p: "p = (name, cs)" by (cases p)
  from Cons.prems p obtain s where s: "summarize_repo lib ex name cs = Inr s"
    using summarize_repo_total [of cs lib ex name] by auto
  from Cons.prems have "list_all (\<lambda>(k, l). list_all (\<lambda>c. is_aware (date c)) l) items" by simp
  from Cons.IH [OF this, of "acc @ [s]"] p s show ?case by simp
qed

text \<open>
  The summaries are produced whenever every commit has a timezone-aware timestamp, as the
  commits that the extractor reads from git always have.
\<close>

lemma generate_repo_summaries_total:
  assumes "list_all (\<lambda>c. is_aware (date c)) commits"
  shows "\<exists>sums. generate_repo_summaries lib commits ex = Inr sums"
proof -
  have "list_all (\<lambda>(k, l). list_all (\<lambda>c. is_aware (date c)) l) (group_by_repo commits [])"
    using assms by (intro group_by_repo_all) simp_all
  from summarize_repos_total [OF this, of lib ex "[]"] show ?thesis
    by (auto simp: generate_repo_summaries_def Let_def)
qed

lemma unlabelled_streak:
  "calculate_streak ascii_lib (ymd 2024 3 5)
     (foldl (\<lambda>a c. set_add a (strftime_ymd ascii_lib (date c))) [] unlabelled_example) 2024 =
   Inr (2, 2)"
  by (simp add: calculate_streak_def walk_back.simps date_key_def calendar_defs string_defs
      example_defs unlabelled_example_def set_add_def Let_def)

lemma unlabelled_summaries:
  "\<exists>summaries. generate_repo_summaries ascii_lib unlabelled_example DEFAULT_EXCLUDE_LANGUAGES =
      Inr summaries"
  by (rule generate_repo_summaries_total)
     (simp add: unlabelled_example_def example_defs is_aware_def)

theorem unlabelled_commits_have_no_summary_witness:
  "\<exists>s. analyze_commits ascii_lib (ymd 2024 3 5) unlabelled_example 2024 None = Inr s \<and>
       total_commits s = 3 \<and> total_added_lines s = 15 \<and>
       set (map rs_name (repo_summaries s)) = {str ''repo''} \<and> repos_count s = 1 \<and>
       card (set (map repo_name unlabelled_example)) = 2"
proof -
  obtain summaries where su:
    "generate_repo_summaries ascii_lib unlabelled_example (exclude_of None) = Inr summaries"
    using unlabelled_summaries by (auto simp: exclude_of_def)
  have ne: "unlabelled_example \<noteq> []" by (simp add: unlabelled_example_def)
  have sm: "\<bar>sum_list (map added_lines (concat (map files unlabelled_example)))\<bar> < 2 ^ 53"
    by (simp add: unlabelled_example_def example_defs)
  have b: "\<bar>sum_list (map added_lines (concat (map files unlabelled_example))) -
            sum_list (map deleted_lines (concat (map files unlabelled_example)))\<bar> < 10 ^ 15"
    "int (length unlabelled_example) < 10 ^ 15"
    "int (length (concat (map files unlabelled_example))) < 10 ^ 15" "\<bar>2::int\<bar> < 10 ^ 15"
    by (simp_all add: unlabelled_example_def example_defs)
  obtain s where s: "analyze_commits ascii_lib (ymd 2024 3 5) unlabelled_example 2024 None = Inr s"
    using analyze_commits_returns [OF ne unlabelled_streak su sm b] by auto
  have l: "set (map repo_name unlabelled_example) = {str ''repo'', []}"
    by (auto simp: unlabelled_example_def example_defs str_simps)
  have l': "set (map repo_name unlabelled_example) - {[]} = {str ''repo''}"
    unfolding l by (auto simp: str_simps)
  have c: "card (set (map repo_name unlabelled_example)) = 2"
    unfolding l by (simp add: str_simps)
  note u = unlabelled_commits_have_no_summary [OF s]
  have 1: "total_commits s = 3" using u by (simp add: unlabelled_example_def example_defs)
  have 2: "total_added_lines s = 15" using u by (simp add: unlabelled_example_def example_defs)
  have 3: "set (map rs_name (repo_summaries s)) = {str ''repo''}" using u l' by simp
  have 4: "repos_count s = 1" using u l' by simp
  from s 1 2 3 4 c show ?thesis by (intro exI conjI)
qed

lemma parser_streak:
  "calculate_streak ascii_lib (ymd 2024 3 5)
     (foldl (\<lambda>a c. set_add a (strftime_ymd ascii_lib (date c))) [] [parser_commit\<lparr>files := fs\<rparr>])
     2024 = Inr (1, 0)"
  by (simp add: calculate_streak_def walk_back.simps date_key_def calendar_defs string_defs
      example_defs parser_commit_def set_add_def Let_def)

lemma parser_summaries:
  "\<exists>summaries. generate_repo_summaries ascii_lib [parser_commit\<lparr>files := fs\<rparr>]
      DEFAULT_EXCLUDE_LANGUAGES = Inr summaries"
  by (rule generate_repo_summaries_total)
     (simp add: parser_commit_def example_defs is_aware_def)

lemma parser_returns:
  assumes "\<bar>sum_list (map added_lines fs)\<bar> < 2 ^ 53"
    and "\<bar>sum_list (map added_lines fs) - sum_list (map deleted_lines fs)\<bar> < 10 ^ 15"
    and "int (length fs) < 10 ^ 15"
  shows "\<exists>s. analyze_commits ascii_lib (ymd 2024 3 5) [parser_commit\<lparr>files := fs\<rparr>] 2024 None =
           Inr s"
proof -
  obtain summaries where su:
    "generate_repo_summaries ascii_lib [parser_commit\<lparr>files := fs\<rparr>] (exclude_of None) =
       Inr summaries"
    using parser_summaries by (auto simp: exclude_of_def)
  have sm: "\<bar>sum_list (map added_lines (concat (map files [parser_commit\<lparr>files := fs\<rparr>])))\<bar>
            < 2 ^ 53"
    using assms(1) by simp
  have b: "\<bar>sum_list (map added_lines (concat (map files [parser_commit\<lparr>files := fs\<rparr>]))) -
            sum_list (map deleted_lines (concat (map files [parser_commit\<lparr>files := fs\<rparr>])))\<bar>
           < 10 ^ 15"
    "int (length [parser_commit\<lparr>files := fs\<rparr>]) < 10 ^ 15"
    "int (length (concat (map files [parser_commit\<lparr>files := fs\<rparr>]))) < 10 ^ 15"
    "\<bar>1::int\<bar> < 10 ^ 15"
    using assms(2,3) by simp_all
  show ?thesis
    using analyze_commits_returns [OF _ parser_streak su sm b] by auto
qed

theorem excluded_language_counts_lines_only_witness:
  "\<exists>s s'. language markdown_file = Some (str ''Markdown'') \<and>
     str ''Markdown'' \<in> DEFAULT_EXCLUDE_LANGUAGES \<and> added_lines markdown_file = 40 \<and>
     analyze_commits ascii_lib (ymd 2024 3 5) [parser_commit\<lparr>files := [python_file]\<rparr>] 2024 None =
       Inr s \<and>
     analyze_commits ascii_lib (ymd 2024 3 5)
       [parser_commit\<lparr>files := [python_file, markdown_file]\<rparr>] 2024 None = Inr s' \<and>
     total_added_lines s' = total_added_lines s + 40 \<and> languages s' = languages s"
proof -
  have m: "language markdown_file = Some (str ''Markdown'')"
    by (simp add: markdown_file_def mk_file_def)
  have x: "str ''Markdown'' \<in> DEFAULT_EXCLUDE_LANGUAGES"
    by (simp add: DEFAULT_EXCLUDE_LANGUAGES_def)
  have a: "added_lines markdown_file = 40"
    by (simp add: markdown_file_def mk_file_def)
  obtain s where s:
    "analyze_commits ascii_lib (ymd 2024 3 5) [parser_commit\<lparr>files := [python_file]\<rparr>] 2024 None =
       Inr s"
    using parser_returns [of "[python_file]"] by (auto simp: python_file_def mk_file_def)
  obtain s' where s':
    "analyze_commits ascii_lib (ymd 2024 3 5)
       [parser_commit\<lparr>files := [python_file, markdown_file]\<rparr>] 2024 None = Inr s'"
    using parser_returns [of "[python_file, markdown_file]"]
    by (auto simp: python_file_def markdown_file_def mk_file_def)
  note t = excluded_language_counts_lines_only
    [OF m x, where lib = ascii_lib and today = "ymd 2024 3 5" and ?cs1.0 = "[]"
      and c = parser_commit and ?fs1.0 = "[python_file]" and ?fs2.0 = "[]" and ?cs2.0 = "[]"
      and yr = 2024 and stats = s and stats' = s']
  have c: "total_added_lines s' = total_added_lines s + 40"
    using t s s' a by simp
  have d: "languages s' = languages s"
    using t s s' by simp
  show ?thesis
    by (rule exI [where x = s], rule exI [where x = s']) (intro conjI m x a s s' c d)
qed


section \<open>History extractor: the diff statistics\<close>

lemma split_sep_no_sep:
  "c \<notin> set xs \<Longrightarrow> split_sep [c] n cur xs = [cur @ xs]"
  by (induction xs arbitrary: cur) auto

lemma split_sep_at_sep:
  "c \<notin> set xs \<Longrightarrow> n \<noteq> 0 \<Longrightarrow>
   split_sep [c] n cur (xs @ c # rest) = (cur @ xs) # split_sep [c] (n - 1) [] rest"
  by (induction xs arbitrary: cur) auto

lemma split_sep_zero: "split_sep sep 0 cur xs = [cur @ xs]"
  by (cases xs) simp_all

lemma split_three_fields:
  assumes "9 \<notin> set a" "9 \<notin> set b" "9 \<notin> set fname"
  shows "split (a @ 9 # b @ 9 # fname) [9] = [a, b, fname]"
  using assms by (simp add: split_def split_sep_at_sep split_sep_no_sep)

lemma parse_numstat_acc: "parse_numstat lib ls acc = acc @ parse_numstat lib ls []"
proof (induction ls arbitrary: acc)
  case Nil
  show ?case by simp
next
  case (Cons l ls)
  show ?case
    using Cons.IH [of acc] Cons.IH [of "acc @ [x]" for x] Cons.IH [of "[x]" for x]
    by (auto simp: Let_def split: option.splits)
qed

lemma parse_numstat_append:
  "parse_numstat lib (ls1 @ ls2) acc = parse_numstat lib ls2 (parse_numstat lib ls1 acc)"
  by (induction ls1 arbitrary: acc) (auto simp: Let_def split: option.splits)

lemma parse_numstat_mid:
  "parse_numstat lib (ls1 @ l # ls2) [] =
   parse_numstat lib ls1 [] @ parse_numstat lib [l] [] @ parse_numstat lib ls2 []"
proof -
  have "parse_numstat lib (ls1 @ l # ls2) [] =
        parse_numstat lib ls2 (parse_numstat lib [l] (parse_numstat lib ls1 []))"
    using parse_numstat_append [of lib ls1 "[l] @ ls2" "[]"]
      parse_numstat_append [of lib "[l]" ls2] by simp
  also have "\<dots> = parse_numstat lib [l] (parse_numstat lib ls1 []) @ parse_numstat lib ls2 []"
    by (rule parse_numstat_acc)
  also have "parse_numstat lib [l] (parse_numstat lib ls1 []) =
             parse_numstat lib ls1 [] @ parse_numstat lib [l] []"
    by (rule parse_numstat_acc)
  finally show ?thesis by simp
qed

lemma parse_numstat_skip:
  "parse_numstat lib (ls1 @ ls2) [] = parse_numstat lib ls1 [] @ parse_numstat lib ls2 []"
  by (simp only: parse_numstat_append) (rule parse_numstat_acc)

lemma parse_numstat_malformed:
  "malformed lib line \<Longrightarrow> parse_numstat lib [line] [] = []"
  by (auto simp: malformed_def Let_def split: option.splits)

lemma parse_numstat_sentinel:
  assumes "9 \<notin> set fname"
  shows "parse_numstat lib [str ''-'' @ 9 # str ''-'' @ 9 # fname] [] =
         [\<lparr>filename = fname, language = get_language lib fname, added_lines = 0,
           deleted_lines = 0, empty_lines_added = 0\<rparr>]"
proof -
  have "split (str ''-'' @ 9 # str ''-'' @ 9 # fname) [9] = [str ''-'', str ''-'', fname]"
    using assms by (intro split_three_fields) (simp_all add: str_simps)
  then show ?thesis by (simp add: Let_def str_simps)
qed

lemma parse_git_diff_lines:
  assumes "run_git_command repo [str ''diff'', h @ str ''^!'', str ''--numstat''] = (True, out) \<or>
           (\<not> fst (run_git_command repo [str ''diff'', h @ str ''^!'', str ''--numstat'']) \<and>
            run_git_command repo
              [str ''diff'', str ''--numstat'', str ''4b825dc642cb6eb9a060e54bf8d69288fbee4904'', h] =
              (True, out))"
    and "strip out \<noteq> []"
  shows "parse_git_diff lib run_git_command repo h = parse_numstat lib (split (strip out) [10]) []"
  using assms by (auto simp: parse_git_diff_def split: prod.splits)

text \<open>
  Claim C8. Let the diff query (or, when it fails, the query against the empty tree)
  succeed with an output that is not blank, and let \<open>line\<close> be one of its lines. If the
  line carries the sentinel \<open>-\<close> for both counts, the extractor records the file at its
  place with \<open>added_lines = 0\<close> and \<open>deleted_lines = 0\<close>. If the line has fewer than three
  fields, or a count that is neither the sentinel nor a number, the result is the same as
  without the line.
\<close>

theorem binary_recorded_malformed_skipped:
  assumes "run_git_command repo [str ''diff'', h @ str ''^!'', str ''--numstat''] = (True, out) \<or>
           (\<not> fst (run_git_command repo [str ''diff'', h @ str ''^!'', str ''--numstat'']) \<and>
            run_git_command repo
              [str ''diff'', str ''--numstat'', str ''4b825dc642cb6eb9a060e54bf8d69288fbee4904'', h] =
              (True, out))"
    and "strip out \<noteq> []"
    and "split (strip out) [10] = ls1 @ line # ls2"
  shows "(line = str ''-'' @ 9 # str ''-'' @ 9 # fname \<and> 9 \<notin> set fname \<longrightarrow>
            parse_git_diff lib run_git_command repo h =
              parse_numstat lib ls1 [] @
              [\<lparr>filename = fname, language = get_language lib fname, added_lines = 0,
                deleted_lines = 0, empty_lines_added = 0\<rparr>] @
              parse_numstat lib ls2 []) \<and>
         (malformed lib line \<longrightarrow>
            parse_git_diff lib run_git_command repo h = parse_numstat lib (ls1 @ ls2) [])"
proof -
  have d: "parse_git_diff lib run_git_command repo h =
           parse_numstat lib ls1 [] @ parse_numstat lib [line] [] @ parse_numstat lib ls2 []"
  proof -
    have "parse_git_diff lib run_git_command repo h =
          parse_numstat lib (split (strip out) [10]) []"
      using assms(1,2) by (rule parse_git_diff_lines)
    then show ?thesis unfolding assms(3) by (simp only: parse_numstat_mid)
  qed
  show ?thesis
  proof (intro conjI impI)
    assume a: "line = str ''-'' @ 9 # str ''-'' @ 9 # fname \<and> 9 \<notin> set fname"
    then have l: "line = str ''-'' @ 9 # str ''-'' @ 9 # fname" and t: "9 \<notin> set fname"
      by blast+
    have "parse_numstat lib [line] [] =
               [\<lparr>filename = fname, language = get_language lib fname, added_lines = 0,
                 deleted_lines = 0, empty_lines_added = 0\<rparr>]"
      unfolding l by (rule parse_numstat_sentinel [OF t])
    then show "parse_git_diff lib run_git_command repo h =
              parse_numstat lib ls1 [] @
              [\<lparr>filename = fname, language = get_language lib fname, added_lines = 0,
                deleted_lines = 0, empty_lines_added = 0\<rparr>] @
              parse_numstat lib ls2 []"
      unfolding d by (simp only:)
  next
    assume "malformed lib line"
    then have "parse_numstat lib [line] [] = []" by (rule parse_numstat_malformed)
    then show "parse_git_diff lib run_git_command repo h = parse_numstat lib (ls1 @ ls2) []"
      unfolding d by (simp only: parse_numstat_skip append_Nil)
  qed
qed

lemma numstat_output:
  "strip (snd (numstat_git repo args)) =
     str ''-'' @ 9 # str ''-'' @ 9 # str ''logo.png'' @ 10 #
     str ''3'' @ 9 # str ''1'' @ 9 # str ''a.py'' @ 10 #
     str ''garbage'' @ 10 #
     str ''x'' @ 9 # str ''2'' @ 9 # str ''b.py''"
  by (simp add: numstat_git_def numstat_lines_def strip_def isspace_def str_simps)

lemma numstat_split: "split (strip (snd (numstat_git repo args))) [10] = numstat_lines"
  unfolding numstat_output by (simp add: split_def numstat_lines_def str_simps)

theorem binary_recorded_malformed_skipped_witness:
  "parse_git_diff ascii_lib numstat_git (str ''/w/repo'') (str ''abc1'') =
     [mk_file ''logo.png'' [] 0 0, mk_file ''a.py'' ''Python'' 3 1] \<and>
   malformed ascii_lib (str ''garbage'') \<and>
   malformed ascii_lib (str ''x'' @ 9 # str ''2'' @ 9 # str ''b.py'')"
proof -
  let ?out = "snd (numstat_git (str ''/w/repo'') [str ''diff'', str ''abc1'' @ str ''^!'', str ''--numstat''])"
  have g: "numstat_git (str ''/w/repo'') [str ''diff'', str ''abc1'' @ str ''^!'', str ''--numstat''] =
             (True, ?out) \<or>
           (\<not> fst (numstat_git (str ''/w/repo'') [str ''diff'', str ''abc1'' @ str ''^!'', str ''--numstat'']) \<and>
            numstat_git (str ''/w/repo'')
              [str ''diff'', str ''--numstat'', str ''4b825dc642cb6eb9a060e54bf8d69288fbee4904'',
               str ''abc1''] = (True, ?out))"
    by (simp add: numstat_git_def)
  have ne: "strip ?out \<noteq> []" unfolding numstat_output by simp
  have s1: "split (strip ?out) [10] =
        [] @ (str ''-'' @ 9 # str ''-'' @ 9 # str ''logo.png'') #
        [str ''3'' @ 9 # str ''1'' @ 9 # str ''a.py'', str ''garbage'',
         str ''x'' @ 9 # str ''2'' @ 9 # str ''b.py'']"
    unfolding numstat_split by (simp add: numstat_lines_def)
  have m1: "malformed ascii_lib (str ''garbage'')"
    by (simp add: malformed_def split_def str_simps)
  have m2: "malformed ascii_lib (str ''x'' @ 9 # str ''2'' @ 9 # str ''b.py'')"
    by (simp add: malformed_def split_def str_simps py_int_def is_digit_def ascii_lib_def)
  have t: "9 \<notin> set (str ''logo.png'')" by (simp add: str_simps)
  have rest: "parse_numstat ascii_lib
        [str ''3'' @ 9 # str ''1'' @ 9 # str ''a.py'', str ''garbage'',
         str ''x'' @ 9 # str ''2'' @ 9 # str ''b.py''] [] = [mk_file ''a.py'' ''Python'' 3 1]"
    by (simp add: split_def str_simps py_int_def is_digit_def decimal_value_def ascii_lib_def
        get_language_def posix_suffix_def last_component_def lower_def is_ascii_def
        ascii_lower_def LANGUAGE_MAP_def mk_file_def Let_def)
  have lang: "get_language ascii_lib (str ''logo.png'') = None"
    by (simp add: str_simps get_language_def posix_suffix_def last_component_def lower_def
        is_ascii_def ascii_lower_def LANGUAGE_MAP_def ascii_lib_def Let_def)
  note b = binary_recorded_malformed_skipped
    [where run_git_command = numstat_git and repo = "str ''/w/repo''" and h = "str ''abc1''"
       and out = ?out and lib = ascii_lib and fname = "str ''logo.png''" and ?ls1.0 = "[]"
       and line = "str ''-'' @ 9 # str ''-'' @ 9 # str ''logo.png''"
       and ?ls2.0 = "[str ''3'' @ 9 # str ''1'' @ 9 # str ''a.py'', str ''garbage'',
         str ''x'' @ 9 # str ''2'' @ 9 # str ''b.py'']"]
  from b [OF g ne s1]
  have "str ''-'' @ 9 # str ''-'' @ 9 # str ''logo.png'' =
          str ''-'' @ 9 # str ''-'' @ 9 # str ''logo.png'' \<and> 9 \<notin> set (str ''logo.png'') \<longrightarrow>
        parse_git_diff ascii_lib numstat_git (str ''/w/repo'') (str ''abc1'') =
          parse_numstat ascii_lib [] [] @
          [\<lparr>filename = str ''logo.png'', language = get_language ascii_lib (str ''logo.png''),
            added_lines = 0, deleted_lines = 0, empty_lines_added = 0\<rparr>] @
          parse_numstat ascii_lib
            [str ''3'' @ 9 # str ''1'' @ 9 # str ''a.py'', str ''garbage'',
             str ''x'' @ 9 # str ''2'' @ 9 # str ''b.py''] []"
    by (rule conjunct1)
  then have "parse_git_diff ascii_lib numstat_git (str ''/w/repo'') (str ''abc1'') =
          parse_numstat ascii_lib [] [] @
          [\<lparr>filename = str ''logo.png'', language = get_language ascii_lib (str ''logo.png''),
            added_lines = 0, deleted_lines = 0, empty_lines_added = 0\<rparr>] @
          parse_numstat ascii_lib
            [str ''3'' @ 9 # str ''1'' @ 9 # str ''a.py'', str ''garbage'',
             str ''x'' @ 9 # str ''2'' @ 9 # str ''b.py''] []"
    by (rule mp) (intro conjI refl t)
  then have "parse_git_diff ascii_lib numstat_git (str ''/w/repo'') (str ''abc1'') =
        [mk_file ''logo.png'' [] 0 0, mk_file ''a.py'' ''Python'' 3 1]"
    unfolding rest lang by (simp add: mk_file_def)
  with m1 m2 show ?thesis by (intro conjI)
qed


section \<open>History extractor: the log records\<close>

lemma dropWhile_prefix:
  "\<forall>x\<in>set xs. P x \<Longrightarrow> \<not> P y \<Longrightarrow> dropWhile P (xs @ y # ys) = y # ys"
  by (induction xs) simp_all

lemma strip_core:
  assumes "list_all isspace pre" "list_all isspace post" "trimmed core"
  shows "strip (pre @ core @ post) = core"
proof (cases "core = []")
  case True
  have "\<forall>x\<in>set (pre @ post). isspace x"
    using assms(1,2) by (auto simp: list_all_iff)
  then have e: "dropWhile isspace (pre @ post) = []"
    by (simp only: dropWhile_eq_Nil_conv)
  show ?thesis
    unfolding True strip_def by (simp only: append_Nil e rev.simps dropWhile.simps)
next
  case False
  with assms(3) have h: "\<not> isspace (hd core)" and l: "\<not> isspace (last core)"
    by (simp_all add: trimmed_def)
  obtain a as where c: "core = a # as" using False by (cases core) auto
  have 1: "dropWhile isspace (pre @ core @ post) = core @ post"
    unfolding c using assms(1) h dropWhile_prefix [of pre isspace a "as @ post"]
    by (simp add: list_all_iff c)
  obtain b bs where r: "rev core = b # bs" using False by (cases "rev core") auto
  then have "b = last core" using False by (metis hd_rev list.sel(1))
  with l have "\<not> isspace b" by simp
  then have 2: "dropWhile isspace (rev post @ rev core) = rev core"
    unfolding r using assms(2) dropWhile_prefix [of "rev post" isspace b bs]
    by (simp add: list_all_iff)
  show ?thesis by (simp add: strip_def 1 2)
qed

lemma strip_decomposition:
  "\<exists>pre post. m = pre @ strip m @ post \<and> list_all isspace pre \<and> list_all isspace post"
proof -
  let ?r = "dropWhile isspace m"
  have "m = takeWhile isspace m @ ?r" by simp
  moreover have "?r = rev (dropWhile isspace (rev ?r)) @ rev (takeWhile isspace (rev ?r))"
    by (metis rev_append rev_rev_ident takeWhile_dropWhile_id)
  ultimately have "m = takeWhile isspace m @ strip m @ rev (takeWhile isspace (rev ?r))"
    by (simp add: strip_def)
  moreover have "list_all isspace (takeWhile isspace m)"
    by (simp add: list_all_iff) (meson set_takeWhileD)
  moreover have "list_all isspace (rev (takeWhile isspace (rev ?r)))"
    by (simp add: list_all_iff) (meson set_takeWhileD)
  ultimately show ?thesis by blast
qed

lemma trimmed_strip: "trimmed (strip m)"
proof (cases "strip m = []")
  case True
  then show ?thesis by (simp add: trimmed_def)
next
  case False
  let ?r = "dropWhile isspace m"
  let ?d = "dropWhile isspace (rev ?r)"
  have d: "?d \<noteq> []" using False by (simp add: strip_def)
  then have "\<not> isspace (hd ?d)" by (rule hd_dropWhile)
  then have l: "\<not> isspace (last (strip m))"
    using d by (simp add: strip_def last_rev)
  have r: "?r \<noteq> []" using d by (metis dropWhile.simps(1) rev.simps(1))
  then have hr: "\<not> isspace (hd ?r)" by (rule hd_dropWhile)
  have "?r = rev ?d @ rev (takeWhile isspace (rev ?r))"
    by (metis rev_append rev_rev_ident takeWhile_dropWhile_id)
  then have "hd ?r = hd (rev ?d)" using d by (metis hd_append2 rev_is_Nil_conv)
  with hr have "\<not> isspace (hd (strip m))" by (simp add: strip_def)
  with l show ?thesis by (simp add: trimmed_def)
qed

lemma strip_record:
  assumes "list_all isspace ws" "h \<noteq> []" "\<not> isspace (hd h)"
  shows "\<exists>m'. strip (ws @ h @ 0 # e @ 0 # d @ 0 # m) = h @ 0 # e @ 0 # d @ 0 # m' \<and>
              strip m' = strip m"
proof -
  obtain pre post where m: "m = pre @ strip m @ post"
    and pre: "list_all isspace pre" and post: "list_all isspace post"
    using strip_decomposition [of m] by blast
  let ?m' = "if strip m = [] then [] else pre @ strip m"
  let ?core = "h @ 0 # e @ 0 # d @ 0 # ?m'"
  let ?post = "if strip m = [] then pre @ post else post"
  have t: "trimmed ?core"
    using assms(2,3) trimmed_strip [of m]
    by (auto simp: trimmed_def isspace_def)
  have p: "list_all isspace ?post" using pre post by simp
  have "ws @ h @ 0 # e @ 0 # d @ 0 # m = ws @ ?core @ ?post"
    using m by (cases "strip m = []") simp_all
  then have 1: "strip (ws @ h @ 0 # e @ 0 # d @ 0 # m) = ?core"
    using strip_core [OF assms(1) p t] by simp
  have 2: "strip ?m' = strip m"
  proof (cases "strip m = []")
    case True
    then show ?thesis by (simp add: strip_def)
  next
    case False
    have "strip (pre @ strip m @ []) = strip m"
      by (rule strip_core [OF pre _ trimmed_strip]) simp
    with False show ?thesis by simp
  qed
  from 1 2 show ?thesis by blast
qed

lemma split_record:
  assumes "0 \<notin> set h" "0 \<notin> set e" "0 \<notin> set d"
  shows "split_max (h @ 0 # e @ 0 # d @ 0 # m') [0] 3 = [h, e, d, m']"
  using assms by (simp add: split_max_def split_sep_at_sep split_sep_zero)

lemma parse_records_step:
  assumes "list_all isspace ws" "h \<noteq> []" "\<not> isspace (hd h)"
    and "0 \<notin> set h" "0 \<notin> set e" "0 \<notin> set d"
    and "emails = {} \<or> lower lib e \<in> emails" and "lower lib h \<notin> seen"
    and "fromisoformat lib (replace_char d 90 (str ''+00:00'')) = Some dt"
  shows "parse_records lib emails ((ws @ h @ 0 # e @ 0 # d @ 0 # m) # records) seen commits =
         parse_records lib emails records (insert (lower lib h) seen)
           (commits @ [\<lparr>hash = lower lib h, email = lower lib e, date = dt, message = strip m,
                        repo_name = [], files = []\<rparr>])"
proof -
  obtain m' where s: "strip (ws @ h @ 0 # e @ 0 # d @ 0 # m) = h @ 0 # e @ 0 # d @ 0 # m'"
    and m': "strip m' = strip m"
    using strip_record [OF assms(1-3)] by blast
  have ne: "h @ 0 # e @ 0 # d @ 0 # m' \<noteq> []" using assms(2) by simp
  show ?thesis
    using assms(7-9) ne
    by (auto simp: s split_record [OF assms(4-6)] m' Let_def)
qed

lemma parse_records_acc:
  "parse_records lib emails rs seen commits = commits @ parse_records lib emails rs seen []"
proof (induction rs arbitrary: seen commits)
  case Nil
  show ?case by simp
next
  case (Cons r rs)
  show ?case
    using Cons.IH [of seen commits] Cons.IH [of "insert h seen" commits for h]
      Cons.IH [of "insert h seen" "commits @ [x]" for h x] Cons.IH [of "insert h seen" "[x]" for h x]
    by (auto simp: Let_def split: option.splits)
qed

lemma parse_records_append:
  "parse_records lib emails (rs1 @ rs2) seen commits =
   parse_records lib emails rs2 (seen_after lib emails rs1 seen)
     (parse_records lib emails rs1 seen commits)"
  by (induction rs1 arbitrary: seen commits)
     (auto simp: Let_def insert_absorb split: option.splits)

text \<open>
  A record in the middle of the log: the commits of the records before it, its own commit,
  and the commits of the records after it.
\<close>

lemma parse_records_mid:
  assumes "list_all isspace ws" "h \<noteq> []" "\<not> isspace (hd h)"
    and "0 \<notin> set h" "0 \<notin> set e" "0 \<notin> set d"
    and "emails = {} \<or> lower lib e \<in> emails"
    and "lower lib h \<notin> seen_after lib emails rs1 {}"
    and "fromisoformat lib (replace_char d 90 (str ''+00:00'')) = Some dt"
  shows "parse_records lib emails (rs1 @ (ws @ h @ 0 # e @ 0 # d @ 0 # m) # rs2) {} [] =
         parse_records lib emails rs1 {} [] @
         \<lparr>hash = lower lib h, email = lower lib e, date = dt, message = strip m,
           repo_name = [], files = []\<rparr> #
         parse_records lib emails rs2 (insert (lower lib h) (seen_after lib emails rs1 {})) []"
proof -
  let ?c = "\<lparr>hash = lower lib h, email = lower lib e, date = dt, message = strip m,
             repo_name = [], files = []\<rparr>"
  let ?cs1 = "parse_records lib emails rs1 {} []"
  let ?seen = "seen_after lib emails rs1 {}"
  have "parse_records lib emails (rs1 @ (ws @ h @ 0 # e @ 0 # d @ 0 # m) # rs2) {} [] =
        parse_records lib emails ((ws @ h @ 0 # e @ 0 # d @ 0 # m) # rs2) ?seen ?cs1"
    by (rule parse_records_append)
  also have "\<dots> = parse_records lib emails rs2 (insert (lower lib h) ?seen) (?cs1 @ [?c])"
    by (rule parse_records_step [OF assms])
  also have "\<dots> = (?cs1 @ [?c]) @ parse_records lib emails rs2 (insert (lower lib h) ?seen) []"
    by (rule parse_records_acc)
  finally show ?thesis by simp
qed

text \<open>
  Claim C4, as amended. Let git answer the log query of \<open>parse_git_log\<close> with an output
  that is not blank, and let one of the records into which the extractor cuts the output
  at the double NUL be well formed: a hash that does not start with whitespace, an e-mail
  address, a timestamp that parses and a message, separated by NUL, possibly after the
  newline that ends the previous record. If the record passes the author filter and its
  hash has not been seen in the records before it, then the list that \<open>parse_git_log\<close>
  returns has, between the commits of the records before and after, the commit of that
  record, and its message is the text of the record with all leading and all trailing
  whitespace removed, as \<open>str.strip()\<close> does, not only one trailing newline: the message
  field is the original text between a whitespace prefix and a whitespace suffix, and has
  no whitespace at either end. What lies between is kept as it is.
\<close>

theorem message_is_stripped_at_both_ends:
  assumes "str_of_int yr = Inr y"
    and "run_git_command repo_path
           [str ''log'', str ''--all'', str ''--after='' @ y @ str ''-01-01'',
            str ''--before='' @ (y @ str ''-12-31'') @ str '' 23:59:59'',
            str ''--format=%H%x00%ae%x00%aI%x00%B%x00%x00''] = (True, out)"
    and "strip out \<noteq> []"
    and "split out [0, 0] = rs1 @ (ws @ h @ 0 # e @ 0 # d @ 0 # m) # rs2"
    and "list_all isspace ws" "h \<noteq> []" "\<not> isspace (hd h)"
    and "0 \<notin> set h" "0 \<notin> set e" "0 \<notin> set d"
    and "emails = {} \<or> lower lib e \<in> emails"
    and "lower lib h \<notin> seen_after lib emails rs1 {}"
    and "fromisoformat lib (replace_char d 90 (str ''+00:00'')) = Some dt"
  shows "parse_git_log lib run_git_command repo_path yr emails =
           Inr (parse_records lib emails rs1 {} [] @
                \<lparr>hash = lower lib h, email = lower lib e, date = dt, message = strip m,
                  repo_name = [], files = []\<rparr> #
                parse_records lib emails rs2
                  (insert (lower lib h) (seen_after lib emails rs1 {})) []) \<and>
         (\<exists>pre post. m = pre @ strip m @ post \<and> list_all isspace pre \<and> list_all isspace post) \<and>
         trimmed (strip m)"
proof -
  have "parse_git_log lib run_git_command repo_path yr emails =
        Inr (parse_records lib emails (split out [0, 0]) {} [])"
    unfolding parse_git_log_def Let_def assms(1) using assms(3)
    by (simp only: sum.case assms(2) prod.case simp_thms if_False)
  also have "parse_records lib emails (split out [0, 0]) {} [] =
        parse_records lib emails rs1 {} [] @
        \<lparr>hash = lower lib h, email = lower lib e, date = dt, message = strip m,
          repo_name = [], files = []\<rparr> #
        parse_records lib emails rs2 (insert (lower lib h) (seen_after lib emails rs1 {})) []"
    unfolding assms(4) by (rule parse_records_mid [OF assms(5-13)])
  finally show ?thesis
    using strip_decomposition [of m] trimmed_strip [of m] by (intro conjI)
qed

lemma log_fields:
  "lower ascii_lib (str ''ABC1'') = str ''abc1''"
  "lower ascii_lib (str ''Dev@Example.org'') = str ''dev@example.org''"
  "fromisoformat ascii_lib (replace_char (str ''2024-03-04T12:00:00+00:00'') 90 (str ''+00:00'')) =
     Some (noon 2024 3 4)"
  "strip log_message = str ''indented subject'' @ 10 # 10 # str ''body''"
  by (simp_all add: string_defs ascii_lib_def iso_strict_def decimal_value_def noon_def
      log_message_def Let_def)

lemma str_of_int_2024: "str_of_int 2024 = Inr (str ''2024'')"
  by (simp add: str_of_int_def digits_of.simps max_str_digits_def str_simps Let_def)

lemma log_output:
  "strip (log_record @ [0, 0, 10]) \<noteq> []"
  "split (log_record @ [0, 0, 10]) [0, 0] =
     [] @ ([] @ str ''ABC1'' @ 0 # str ''Dev@Example.org'' @ 0 #
           str ''2024-03-04T12:00:00+00:00'' @ 0 # log_message) # [[10]]"
  by (simp_all add: log_record_def log_message_def strip_def isspace_def split_def str_simps)

lemma blank_record: "parse_records lib emails [[10]] seen [] = []"
  by (simp add: strip_def isspace_def)

theorem message_is_stripped_at_both_ends_witness:
  "parse_git_log ascii_lib log_git (str ''/w/repo'') 2024 {} =
     Inr [\<lparr>hash = str ''abc1'', email = str ''dev@example.org'', date = noon 2024 3 4,
           message = str ''indented subject'' @ 10 # 10 # str ''body'', repo_name = [],
           files = []\<rparr>] \<and>
   (\<exists>pre post. log_message = pre @ (str ''indented subject'' @ 10 # 10 # str ''body'') @ post \<and>
      list_all isspace pre \<and> list_all isspace post) \<and>
   trimmed (str ''indented subject'' @ 10 # 10 # str ''body'')"
proof -
  note t = message_is_stripped_at_both_ends
    [where lib = ascii_lib and run_git_command = log_git and repo_path = "str ''/w/repo''"
       and yr = 2024 and y = "str ''2024''" and out = "log_record @ [0, 0, 10]"
       and ?rs1.0 = "[]" and ?rs2.0 = "[[10]]" and ws = "[]" and h = "str ''ABC1''"
       and e = "str ''Dev@Example.org''" and d = "str ''2024-03-04T12:00:00+00:00''"
       and m = log_message and emails = "{}" and dt = "noon 2024 3 4"]
  have "parse_git_log ascii_lib log_git (str ''/w/repo'') 2024 {} =
          Inr (parse_records ascii_lib {} [] {} [] @
               \<lparr>hash = lower ascii_lib (str ''ABC1''),
                 email = lower ascii_lib (str ''Dev@Example.org''), date = noon 2024 3 4,
                 message = strip log_message, repo_name = [], files = []\<rparr> #
               parse_records ascii_lib {} [[10]]
                 (insert (lower ascii_lib (str ''ABC1'')) (seen_after ascii_lib {} [] {})) []) \<and>
        (\<exists>pre post. log_message = pre @ strip log_message @ post \<and> list_all isspace pre \<and>
           list_all isspace post) \<and>
        trimmed (strip log_message)"
  proof (rule t)
    show "str_of_int 2024 = Inr (str ''2024'')" by (rule str_of_int_2024)
    show "log_git (str ''/w/repo'')
           [str ''log'', str ''--all'', str ''--after='' @ str ''2024'' @ str ''-01-01'',
            str ''--before='' @ (str ''2024'' @ str ''-12-31'') @ str '' 23:59:59'',
            str ''--format=%H%x00%ae%x00%aI%x00%B%x00%x00''] = (True, log_record @ [0, 0, 10])"
      by (simp add: log_git_def)
    show "strip (log_record @ [0, 0, 10]) \<noteq> []" by (rule log_output)
    show "split (log_record @ [0, 0, 10]) [0, 0] =
          [] @ ([] @ str ''ABC1'' @ 0 # str ''Dev@Example.org'' @ 0 #
                str ''2024-03-04T12:00:00+00:00'' @ 0 # log_message) # [[10]]"
      by (rule log_output)
    show "fromisoformat ascii_lib
            (replace_char (str ''2024-03-04T12:00:00+00:00'') 90 (str ''+00:00'')) =
          Some (noon 2024 3 4)"
      by (rule log_fields)
  qed (simp_all add: str_simps isspace_def)
  then show ?thesis
    unfolding log_fields blank_record by simp
qed

text \<open>
  The claim as stated fails: the message that git prints as
  \<open>"  indented subject\\n\\nbody\\n"\<close> is recorded without its two leading spaces, not
  only without the trailing newline.
\<close>

theorem leading_whitespace_lost_counterexample:
  "parse_git_log ascii_lib log_git (str ''/w/repo'') 2024 {} =
     Inr [\<lparr>hash = str ''abc1'', email = str ''dev@example.org'', date = noon 2024 3 4,
           message = str ''indented subject'' @ 10 # 10 # str ''body'', repo_name = [],
           files = []\<rparr>] \<and>
   str ''indented subject'' @ 10 # 10 # str ''body'' \<noteq>
     str ''  indented subject'' @ 10 # 10 # str ''body''"
proof -
  have r: "log_record = [] @ str ''ABC1'' @ 0 # str ''Dev@Example.org'' @ 0 #
             str ''2024-03-04T12:00:00+00:00'' @ 0 # log_message"
    by (simp add: log_record_def)
  have "parse_records ascii_lib {} [log_record, [10]] {} [] =
          parse_records ascii_lib {} [[10]] (insert (lower ascii_lib (str ''ABC1'')) {})
            ([] @ [\<lparr>hash = lower ascii_lib (str ''ABC1''),
                     email = lower ascii_lib (str ''Dev@Example.org''), date = noon 2024 3 4,
                     message = strip log_message, repo_name = [], files = []\<rparr>])"
    unfolding r
    by (rule parse_records_step) (simp add: log_fields | simp add: str_simps isspace_def)+
  then have p: "parse_records ascii_lib {} [log_record, [10]] {} [] =
             [\<lparr>hash = str ''abc1'', email = str ''dev@example.org'', date = noon 2024 3 4,
               message = str ''indented subject'' @ 10 # 10 # str ''body'', repo_name = [],
               files = []\<rparr>]"
    unfolding log_fields by (simp add: strip_def isspace_def)
  have s: "split (log_record @ [0, 0, 10]) [0, 0] = [log_record, [10]]"
    using log_output(2) by (simp add: log_record_def)
  have "parse_git_log ascii_lib log_git (str ''/w/repo'') 2024 {} =
        Inr (parse_records ascii_lib {} [log_record, [10]] {} [])"
    unfolding parse_git_log_def Let_def str_of_int_2024 log_git_def using log_output(1)
    by (simp only: sum.case prod.case simp_thms if_False s)
  then show ?thesis
    unfolding p by (simp add: str_simps)
qed


section \<open>The pipeline over several repositories\<close>

lemma hash_labelled [simp]: "hash (labelled lib g repo c) = hash c"
  by (simp add: labelled_def)



















end
